theory Spec2Isabelle
  imports Main "HOL-Library.Word"
begin

section \<open>JavaScript values\<close>

text \<open>
  A JavaScript string is a sequence of UTF-16 code units; \<open>length\<close> counts code units.
  String literals of the source are written \<open>js ''...''\<close>.
\<close>

type_synonym codeunit = "16 word"
type_synonym jsstring = "codeunit list"

definition js :: "string \<Rightarrow> jsstring" where
  "js s = map of_char s"

text \<open>
  Parsed JSON, as \<open>JSON.parse\<close> returns it and \<open>JSON.stringify\<close> takes it. Numbers are
  kept as integers: sequence numbers, lines and columns are the numbers of the protocol.
\<close>

datatype json =
    JNull
  | JBool bool
  | JNum int
  | JStr jsstring
  | JArr "json list"
  | JObj "(jsstring \<times> json) list"

text \<open>
  A JavaScript number is an IEEE-754 double. On the integers below \<open>2 ^ 53\<close> the
  addition of 1 is exact. From \<open>2 ^ 53\<close> on the doubles are the even integers, the sum
  \<open>n + 1\<close> lies halfway between two neighbours and is rounded to the one with the even
  mantissa; from \<open>2 ^ 54\<close> on the neighbours are 4 or more apart and the sum is rounded
  back to \<open>n\<close>. The function is meant for the integer-valued doubles \<open>n\<close>.
\<close>

definition js_add_one :: "nat \<Rightarrow> nat" where
  "js_add_one n =
     (if n < 2 ^ 53 then n + 1
      else if n < 2 ^ 54 \<and> odd (n div 2) then n + 2
      else n)"

text \<open>
  A logger call takes a template literal: text interleaved with interpolated values.
  An absent property (\<open>undefined\<close>) is \<open>None\<close>.
\<close>

datatype log_part =
    Text jsstring
  | Interpolated "json option"

datatype log_entry =
    Info "log_part list"
  | Error "log_part list"

text \<open>JavaScript truthiness of a property read from parsed JSON.\<close>

fun truthy :: "json option \<Rightarrow> bool" where
  "truthy None = False"
| "truthy (Some JNull) = False"
| "truthy (Some (JBool b)) = b"
| "truthy (Some (JNum n)) = (n \<noteq> 0)"
| "truthy (Some (JStr t)) = (t \<noteq> [])"
| "truthy (Some (JArr _)) = True"
| "truthy (Some (JObj _)) = True"

text \<open>The faults of the model: an uncaught exception, or the rejection of a promise.\<close>

datatype fault =
    TypeError
  | Rejection "json option"

text \<open>The state in which an awaited promise is found.\<close>

datatype 'a outcome =
    Rejected "json option"
  | Resolved 'a

section \<open>The session registry and the backend process\<close>

text \<open>
  Modelled from the spec: the class \<open>LanguageServerManager\<close> is not among the sources.
  The registry is a single mapping from session identifier to owner;
  \<open>dispose(sessionId)\<close> removes the entry if present and is safe to call when absent.
  Owners are named by a number.
\<close>

type_synonym registry = "jsstring \<rightharpoonup> nat"

definition manager_dispose :: "registry \<Rightarrow> jsstring \<Rightarrow> registry" where
  "manager_dispose reg key = reg(key := None)"

text \<open>
  What the servers do to a \<open>ChildProcess\<close>: they write lines to its standard input and
  call \<open>kill()\<close>. The handle records the lines written and the number of \<open>kill()\<close> calls.
\<close>

record request_packet =
  Seq :: nat
  Command :: jsstring
  Arguments :: "json option"

record child_process =
  stdin_lines :: "request_packet list"
  kill_calls :: nat

definition kill :: "child_process \<Rightarrow> child_process" where
  "kill p = p\<lparr>kill_calls := kill_calls p + 1\<rparr>"

section \<open>JavaLanguageServer\<close>

text \<open>
  The fields carry the prefix \<open>j\<close>; \<open>jsent\<close> holds the \<open>data\<close> of the messages handed to
  \<open>socket.send\<close>, oldest first.
\<close>

record java_server =
  jspaceKey :: jsstring
  jdestroyed :: bool
  jprocess :: "child_process option"
  jservicesManager :: registry
  jlog :: "log_entry list"
  jsent :: "jsstring list"

text \<open>
  \<open>JavaLanguageServer.dispose\<close>. The field \<open>process\<close> is unset until \<open>start\<close> has spawned
  the backend; \<open>this.process.kill()\<close> then throws, after the three statements before it
  have taken effect.
\<close>

definition java_dispose :: "java_server \<Rightarrow> (fault + unit) \<times> java_server" where
  "java_dispose s =
     (let s1 = s\<lparr>jdestroyed := True\<rparr>;
          s2 = s1\<lparr>jlog := jlog s1 @ [Info [Text (jspaceKey s1 @ js '' is disconnect.'')]]\<rparr>;
          s3 = s2\<lparr>jservicesManager := manager_dispose (jservicesManager s2) (jspaceKey s2)\<rparr>
      in case jprocess s3 of
           None \<Rightarrow> (Inl TypeError, s3)
         | Some p \<Rightarrow> (Inr (), s3\<lparr>jprocess := Some (kill p)\<rparr>))"

fun java_dispose_times :: "nat \<Rightarrow> java_server \<Rightarrow> java_server" where
  "java_dispose_times 0 s = s"
| "java_dispose_times (Suc n) s = java_dispose_times n (snd (java_dispose s))"

section \<open>CsharpLanguageServer: state, requests and disposal\<close>

record request =
  command :: jsstring
  data :: "json option"
  promise :: nat

text \<open>A promise returned by \<open>makeRequest\<close> is pending until \<open>onSuccess\<close> or \<open>onError\<close> runs.\<close>

datatype promise_state =
    Pending
  | Fulfilled "json option"
  | Failed "json option"

record text_document =
  uri :: jsstring
  languageId :: jsstring
  version :: int
  content :: jsstring

record csharp_server =
  spaceKey :: jsstring
  nextId :: nat
  openedDocumentUris :: "jsstring \<rightharpoonup> text_document"
  serverProcess :: "child_process option"
  destroyed :: bool
  servicesManager :: registry
  waiting :: "(nat \<times> request) list"
  promises :: "promise_state list"
  log :: "log_entry list"

text \<open>
  \<open>CsharpLanguageServer._makeRequest\<close>: without a process handle nothing is assigned;
  otherwise \<open>this._nextId += 1\<close> is the sequence number of the packet written to the
  backend's standard input.
\<close>

definition underscore_makeRequest :: "csharp_server \<Rightarrow> request \<Rightarrow> nat option \<times> csharp_server" where
  "underscore_makeRequest s r =
     (case serverProcess s of
        None \<Rightarrow> (None, s)
      | Some p \<Rightarrow>
          (let ident = js_add_one (nextId s);
               requestPacket = \<lparr>Seq = ident, Command = command r, Arguments = data r\<rparr>
           in (Some ident,
               s\<lparr>nextId := ident,
                 serverProcess := Some (p\<lparr>stdin_lines := stdin_lines p @ [requestPacket]\<rparr>)\<rparr>)))"

text \<open>The sequence numbers of a run of dispatches, in assignment order.\<close>

fun dispatch_all :: "csharp_server \<Rightarrow> request list \<Rightarrow> nat option list \<times> csharp_server" where
  "dispatch_all s [] = ([], s)"
| "dispatch_all s (r # rs) =
     (let (i, s1) = underscore_makeRequest s r;
          (is, s2) = dispatch_all s1 rs
      in (i # is, s2))"

text \<open>\<open>CsharpLanguageServer.dispose\<close>, statement by statement as the Java one.\<close>

definition dispose :: "csharp_server \<Rightarrow> (fault + unit) \<times> csharp_server" where
  "dispose s =
     (let s1 = s\<lparr>destroyed := True\<rparr>;
          s2 = s1\<lparr>log := log s1 @ [Info [Text (spaceKey s1 @ js '' is disconnect.'')]]\<rparr>;
          s3 = s2\<lparr>servicesManager := manager_dispose (servicesManager s2) (spaceKey s2)\<rparr>
      in case serverProcess s3 of
           None \<Rightarrow> (Inl TypeError, s3)
         | Some p \<Rightarrow> (Inr (), s3\<lparr>serverProcess := Some (kill p)\<rparr>))"

fun dispose_times :: "nat \<Rightarrow> csharp_server \<Rightarrow> csharp_server" where
  "dispose_times 0 s = s"
| "dispose_times (Suc n) s = dispose_times n (snd (dispose s))"

section \<open>CsharpLanguageServer: the request queue and the backend's lines\<close>

text \<open>
  Modelled from the spec: the class \<open>RequestQueueManager\<close> is not among the sources.
  \<open>enqueue\<close> assigns the next sequence number (through the callback the constructor
  hands over, \<open>_makeRequest\<close>) and stores the request under that number;
  \<open>dequeue(command, sequenceNumber)\<close> removes and returns the request stored for that
  command and number, or finds none. The spec gives \<open>drain\<close> nothing to do.
\<close>

definition enqueue :: "csharp_server \<Rightarrow> request \<Rightarrow> csharp_server" where
  "enqueue s r =
     (case underscore_makeRequest s r of
        (None, s1) \<Rightarrow> s1
      | (Some ident, s1) \<Rightarrow> s1\<lparr>waiting := waiting s1 @ [(ident, r)]\<rparr>)"

definition dequeue ::
  "csharp_server \<Rightarrow> json option \<Rightarrow> json option \<Rightarrow> request option \<times> csharp_server" where
  "dequeue s cmd sq =
     (case (cmd, sq) of
        (Some (JStr c), Some (JNum n)) \<Rightarrow>
          (case find (\<lambda>(i, r). int i = n \<and> command r = c) (waiting s) of
             None \<Rightarrow> (None, s)
           | Some e \<Rightarrow> (Some (snd e), s\<lparr>waiting := remove1 e (waiting s)\<rparr>))
      | _ \<Rightarrow> (None, s))"

definition drain :: "csharp_server \<Rightarrow> csharp_server" where
  "drain s = s"

text \<open>
  \<open>CsharpLanguageServer.makeRequest\<close>: the promise it returns is either rejected at once
  (\<open>Inl\<close>, with the message) or a new pending promise (\<open>Inr\<close>, its index) whose request
  has been enqueued. Cancellation tokens are left out.
\<close>

definition errMsg :: jsstring where
  "errMsg = js ''server has been stopped or not started.''"

definition makeRequest ::
  "csharp_server \<Rightarrow> jsstring \<Rightarrow> json option \<Rightarrow> (jsstring + nat) \<times> csharp_server" where
  "makeRequest s cmd dat =
     (case serverProcess s of
        None \<Rightarrow> (Inl errMsg, s\<lparr>log := log s @ [Error [Text errMsg]]\<rparr>)
      | Some _ \<Rightarrow>
          (let p = length (promises s);
               r = \<lparr>command = cmd, data = dat, promise = p\<rparr>;
               s1 = s\<lparr>promises := promises s @ [Pending]\<rparr>
           in (Inr p, enqueue s1 r)))"

text \<open>Settling a promise: \<open>resolve\<close> and \<open>reject\<close> act on a pending promise only.\<close>

definition settle :: "csharp_server \<Rightarrow> nat \<Rightarrow> promise_state \<Rightarrow> csharp_server" where
  "settle s p v =
     (if p < length (promises s) \<and> promises s ! p = Pending
      then s\<lparr>promises := (promises s)[p := v]\<rparr> else s)"

text \<open>A property of a parsed object; of a duplicated key \<open>JSON.parse\<close> keeps the last.\<close>

definition property :: "(jsstring \<times> json) list \<Rightarrow> string \<Rightarrow> json option" where
  "property packet name = map_of (rev packet) (js name)"

definition handleResponsePacket :: "csharp_server \<Rightarrow> (jsstring \<times> json) list \<Rightarrow> csharp_server" where
  "handleResponsePacket s packet =
     (case dequeue s (property packet ''Command'') (property packet ''Request_seq'') of
        (None, s1) \<Rightarrow>
          s1\<lparr>log := log s1 @
            [Error [Text (js ''Received response for ''), Interpolated (property packet ''Command''),
                    Text (js '' but could not find request.'')]]\<rparr>
      | (Some r, s1) \<Rightarrow>
          (let s2 = s1\<lparr>log := log s1 @
                 [Info [Text (js ''handleResponse: ''), Interpolated (property packet ''Command''),
                        Text (js '' (''), Interpolated (property packet ''Request_seq''),
                        Text (js '')'')]]\<rparr>;
               s3 = (if truthy (property packet ''Success'')
                     then settle s2 (promise r) (Fulfilled (property packet ''Body''))
                     else settle s2 (promise r)
                            (Failed (if truthy (property packet ''Message'')
                                     then property packet ''Message''
                                     else property packet ''Body'')))
           in drain s3))"

text \<open>\<open>_handleEventPacket\<close>: both branches are commented out in the source.\<close>

definition handleEventPacket :: "csharp_server \<Rightarrow> (jsstring \<times> json) list \<Rightarrow> csharp_server" where
  "handleEventPacket s packet = s"

text \<open>
  What the server takes from outside the sources: \<open>removeBOMFromString\<close> of
  \<open>utils/removeBOM\<close>, and \<open>JSON.parse\<close> on a text whose first character is an opening
  brace, which throws (\<open>None\<close>) or returns an object, given by its members in order.
\<close>

record line_runtime =
  removeBOMFromString :: "jsstring \<Rightarrow> jsstring"
  JSON_parse :: "jsstring \<Rightarrow> (jsstring \<times> json) list option"

text \<open>How \<open>lineReceived\<close> disposes of a line.\<close>

datatype line_class =
    NotAnObject
  | NotJSON
  | Bogus
  | ResponsePacket "(jsstring \<times> json) list"
  | EventPacket "(jsstring \<times> json) list"
  | UnknownType "json option"

definition classify :: "line_runtime \<Rightarrow> jsstring \<Rightarrow> line_class" where
  "classify E lineString =
     (let line = removeBOMFromString E lineString in
      if take 1 line \<noteq> js ''{'' then NotAnObject
      else case JSON_parse E line of
             None \<Rightarrow> NotJSON
           | Some packet \<Rightarrow>
               if \<not> truthy (property packet ''Type'') then Bogus
               else if property packet ''Type'' = Some (JStr (js ''response'')) then ResponsePacket packet
               else if property packet ''Type'' = Some (JStr (js ''event'')) then EventPacket packet
               else UnknownType (property packet ''Type''))"

definition lineReceived :: "line_runtime \<Rightarrow> csharp_server \<Rightarrow> jsstring \<Rightarrow> csharp_server" where
  "lineReceived E s lineString =
     (case classify E lineString of
        NotAnObject \<Rightarrow> s
      | NotJSON \<Rightarrow> s
      | Bogus \<Rightarrow> s
      | ResponsePacket packet \<Rightarrow> handleResponsePacket s packet
      | EventPacket packet \<Rightarrow> handleEventPacket s packet
      | UnknownType t \<Rightarrow>
          s\<lparr>log := log s @ [Error [Text (js ''Unknown packet type: ''), Interpolated t]]\<rparr>)"

text \<open>
  The constructor's field values, and \<open>start\<close> from \<open>cp.spawn\<close> on: the process handle is
  set, the projects request (the constant \<open>requests.Projects\<close>, here \<open>projects\<close>) is made,
  and listeners are registered for the lines of standard output, for the process's
  \<open>error\<close> event and for data on standard error (given here as the text that is logged).
  No listener is registered for the process's \<open>exit\<close> event or for the closing of a
  stream.
\<close>

definition constructor :: "jsstring \<Rightarrow> registry \<Rightarrow> csharp_server" where
  "constructor key reg =
     \<lparr>spaceKey = key, nextId = 1, openedDocumentUris = Map.empty, serverProcess = None,
      destroyed = False, servicesManager = reg, waiting = [], promises = [], log = []\<rparr>"

definition start :: "jsstring \<Rightarrow> csharp_server \<Rightarrow> csharp_server" where
  "start projects s =
     snd (makeRequest (s\<lparr>serverProcess := Some \<lparr>stdin_lines = [], kill_calls = 0\<rparr>\<rparr>) projects None)"

datatype backend_event =
    StdoutLine jsstring
  | ProcessError jsstring
  | StderrData jsstring
  | ProcessExit
  | StreamClosed

fun on_backend_event :: "line_runtime \<Rightarrow> csharp_server \<Rightarrow> backend_event \<Rightarrow> csharp_server" where
  "on_backend_event E s (StdoutLine l) = lineReceived E s l"
| "on_backend_event E s (ProcessError m) = s\<lparr>log := log s @ [Error [Text (js ''Error: '' @ m)]]\<rparr>"
| "on_backend_event E s (StderrData d) = s\<lparr>log := log s @ [Error [Text (js ''Error: '' @ d)]]\<rparr>"
| "on_backend_event E s ProcessExit = s"
| "on_backend_event E s StreamClosed = s"

section \<open>CsharpLanguageServer: documents, positions and backend requests\<close>

record position =
  line :: nat
  character :: nat

record range =
  range_start :: position
  range_end :: position

text \<open>The second argument of \<open>createRequest\<close> is a position or a range.\<close>

datatype place =
    At position
  | Span range

text \<open>
  A document identifier handed to the client is the text of a \<open>vscode-uri\<close> value, made
  by \<open>URI.parse\<close> from a string or by \<open>URI.file\<close> from a filesystem path.
\<close>

datatype doc_uri =
    Parsed jsstring
  | File jsstring

record location =
  loc_uri :: doc_uri
  loc_range :: range

record uri_components =
  scheme :: jsstring
  authority :: jsstring
  fsPath :: jsstring

text \<open>
  What the handlers take from outside the sources: \<open>offsetAt\<close> of the language-server
  library's text document, \<open>URI.parse\<close>, and \<open>extractSummaryText\<close> and
  \<open>getDocumentationString\<close> of \<open>protocol/TextDocument\<close>.
\<close>

record handler_runtime =
  offsetAt :: "text_document \<Rightarrow> position \<Rightarrow> nat"
  URI_parse :: "jsstring \<Rightarrow> uri_components"
  extractSummaryText :: "jsstring option \<Rightarrow> jsstring"
  getDocumentationString :: "json option \<Rightarrow> jsstring"

text \<open>\<open>String.prototype.substring\<close>: the two indices are swapped when out of order.\<close>

definition substring :: "jsstring \<Rightarrow> nat \<Rightarrow> nat \<Rightarrow> jsstring" where
  "substring t a b = take (max a b - min a b) (drop (min a b) t)"

text \<open>\<open>TextDocument.getText(range)\<close>: the text between the offsets of the two ends.\<close>

definition getText_range :: "handler_runtime \<Rightarrow> text_document \<Rightarrow> range \<Rightarrow> jsstring" where
  "getText_range R d r =
     substring (content d) (offsetAt R d (range_start r)) (offsetAt R d (range_end r))"

text \<open>\<open>String.prototype.replace\<close> with a string pattern replaces the first occurrence.\<close>

fun replace_first :: "jsstring \<Rightarrow> jsstring \<Rightarrow> jsstring \<Rightarrow> jsstring" where
  "replace_first pat rep [] = (if pat = [] then rep else [])"
| "replace_first pat rep (c # cs) =
     (if take (length pat) (c # cs) = pat then rep @ drop (length pat) (c # cs)
      else c # replace_first pat rep cs)"

record backend_request =
  Line :: nat
  Column :: nat
  Buffer :: "jsstring option"
  FileName :: jsstring

text \<open>\<open>createRequest\<close>; reading \<open>document.uri\<close> of a missing document throws.\<close>

definition createRequest ::
  "handler_runtime \<Rightarrow> text_document option \<Rightarrow> place \<Rightarrow> bool \<Rightarrow> fault + backend_request" where
  "createRequest R document wh includeBuffer =
     (let ln = (case wh of Span r \<Rightarrow> line (range_start r) | At p \<Rightarrow> line p);
          column = (case wh of Span r \<Rightarrow> line (range_end r) | At p \<Rightarrow> character p)
      in case document of
           None \<Rightarrow> Inl TypeError
         | Some d \<Rightarrow>
             (let fileUri = URI_parse R (uri d);
                  uriFileName = fsPath fileUri;
                  fileName =
                    (if scheme fileUri = js ''omnisharp-metadata''
                     then authority fileUri @ replace_first (js ''[metadata] '') [] uriFileName
                     else uriFileName)
              in Inr \<lparr>Line = ln, Column = column,
                      Buffer = (if includeBuffer then Some (content d) else None),
                      FileName = fileName\<rparr>))"

section \<open>CsharpLanguageServer: completion\<close>

datatype CompletionItemKind =
    Kind_Class | Kind_Enum | Kind_Interface | Kind_Struct | Kind_Variable | Kind_Constant
  | Kind_EnumMember | Kind_Event | Kind_Field | Kind_Method | Kind_Property | Kind_Unit
  | Kind_Keyword | Kind_Module

definition kinds :: "jsstring \<rightharpoonup> CompletionItemKind" where
  "kinds = map_of
     [(js ''Class'', Kind_Class), (js ''Delegate'', Kind_Class), (js ''Enum'', Kind_Enum),
      (js ''Interface'', Kind_Interface), (js ''Struct'', Kind_Struct),
      (js ''Local'', Kind_Variable), (js ''Parameter'', Kind_Variable),
      (js ''RangeVariable'', Kind_Variable),
      (js ''Const'', Kind_Constant), (js ''EnumMember'', Kind_EnumMember),
      (js ''Event'', Kind_Event), (js ''Field'', Kind_Field), (js ''Method'', Kind_Method),
      (js ''Property'', Kind_Property),
      (js ''Label'', Kind_Unit), (js ''Keyword'', Kind_Keyword), (js ''Namespace'', Kind_Module)]"

text \<open>The two tables of commit characters; the last three are quote, double quote, backslash.\<close>

definition commitCharactersWithoutSpace :: "jsstring list" where
  "commitCharactersWithoutSpace =
     map (\<lambda>c. [c]) (js ''{}[]().,:;+-*/%&|^!~=<>?@#'' @ [39, 34, 92])"

definition allCommitCharacters :: "jsstring list" where
  "allCommitCharacters = js '' '' # commitCharactersWithoutSpace"

text \<open>One candidate of the backend's answer to the completion request.\<close>

record AutoCompleteResponse =
  CompletionText :: jsstring
  ReturnType :: "jsstring option"
  DisplayText :: jsstring
  Description :: "jsstring option"
  Kind :: jsstring
  IsSuggestionMode :: bool
  Preselect :: bool

record CompletionItem =
  label :: jsstring
  detail :: jsstring
  documentation :: jsstring
  kind :: CompletionItemKind
  insertText :: jsstring
  commitCharacters :: "jsstring list"
  preselect :: bool

text \<open>
  \<open>replace(/<>/g, '')\<close>: every occurrence of the two angle brackets (code units 60 and
  62) is removed, left to right.
\<close>

fun remove_angles :: "jsstring \<Rightarrow> jsstring" where
  "remove_angles (a # b # cs) =
     (if a = 60 \<and> b = 62 then remove_angles cs else a # remove_angles (b # cs))"
| "remove_angles cs = cs"

text \<open>The decimal text of a number, as a template literal and \<open>toString\<close> give it.\<close>

fun decimal :: "nat \<Rightarrow> jsstring" where
  "decimal n = (if n < 10 then [of_nat (48 + n)] else decimal (n div 10) @ [of_nat (48 + n mod 10)])"

declare decimal.simps [simp del]

text \<open>The body of the first loop up to the grouping: one candidate becomes one item.\<close>

definition toCompletionItem :: "handler_runtime \<Rightarrow> AutoCompleteResponse \<Rightarrow> CompletionItem" where
  "toCompletionItem R response =
     \<lparr>label = CompletionText response,
      detail = (case ReturnType response of
                  None \<Rightarrow> DisplayText response
                | Some t \<Rightarrow> if t = [] then DisplayText response
                            else t @ js '' '' @ DisplayText response),
      documentation = extractSummaryText R (Description response),
      kind = (case kinds (Kind response) of None \<Rightarrow> Kind_Property | Some k \<Rightarrow> k),
      insertText = remove_angles (CompletionText response),
      commitCharacters = (if IsSuggestionMode response then commitCharactersWithoutSpace
                          else allCommitCharacters),
      preselect = Preselect response\<rparr>"

text \<open>
  The object \<open>completions\<close> maps a label to its group. Its keys are kept in the order of
  their creation.
\<close>

record completionSet =
  items :: "CompletionItem list"
  set_preselect :: bool

type_synonym completions = "(jsstring \<times> completionSet) list"

fun add_completion :: "completions \<Rightarrow> CompletionItem \<Rightarrow> completions" where
  "add_completion [] completion =
     [(label completion, \<lparr>items = [completion], set_preselect = preselect completion\<rparr>)]"
| "add_completion ((k, cs) # rest) completion =
     (if k = label completion
      then (k, \<lparr>items = items cs @ [completion],
                set_preselect = (set_preselect cs \<or> preselect completion)\<rparr>) # rest
      else (k, cs) # add_completion rest completion)"

definition group_completions :: "handler_runtime \<Rightarrow> AutoCompleteResponse list \<Rightarrow> completions" where
  "group_completions R responses = foldl add_completion [] (map (toCompletionItem R) responses)"

text \<open>
  \<open>for (let key in completions)\<close> visits the keys that are array indices first, in
  ascending numeric order, then the other keys in the order of their creation. An array
  index is the canonical decimal text (digits are the code units 48 to 57) of an integer
  from 0 to \<open>2 ^ 32 - 2\<close>.
\<close>

definition decimal_value :: "jsstring \<Rightarrow> nat" where
  "decimal_value t = foldl (\<lambda>v c. 10 * v + (unat c - 48)) 0 t"

definition is_array_index :: "jsstring \<Rightarrow> bool" where
  "is_array_index t =
     (t \<noteq> [] \<and> list_all (\<lambda>c. 48 \<le> c \<and> c \<le> 57) t \<and> (t = js ''0'' \<or> take 1 t \<noteq> js ''0'')
      \<and> decimal_value t \<le> 4294967294)"

definition enumeration_order :: "jsstring list \<Rightarrow> jsstring list" where
  "enumeration_order ks =
     sort_key decimal_value (filter is_array_index ks) @ filter (\<lambda>k. \<not> is_array_index k) ks"

text \<open>
  The body of the second loop. The suggestion is the first item of the group, the very
  object held there, so the assignments to it show in the group as well.
\<close>

definition annotate :: "CompletionItem \<Rightarrow> nat \<Rightarrow> bool \<Rightarrow> CompletionItem" where
  "annotate suggestion overloadCount pre =
     suggestion\<lparr>detail := detail suggestion @ js '' (+ '' @ decimal overloadCount @ js '' overload(s))'',
                preselect := pre\<rparr>"

definition suggest ::
  "completions \<times> CompletionItem list \<Rightarrow> jsstring \<Rightarrow> fault + completions \<times> CompletionItem list" where
  "suggest st key =
     (case map_of (fst st) key of
        None \<Rightarrow> Inl TypeError
      | Some cs \<Rightarrow>
          (case items cs of
             [] \<Rightarrow> Inl TypeError
           | suggestion # others \<Rightarrow>
               (let overloadCount = length (items cs) - 1 in
                if overloadCount = 0
                then Inr (filter (\<lambda>e. fst e \<noteq> key) (fst st), snd st @ [suggestion])
                else (let annotated = annotate suggestion overloadCount (set_preselect cs)
                      in Inr (map (\<lambda>e. if fst e = key then (key, cs\<lparr>items := annotated # others\<rparr>) else e)
                                (fst st),
                              snd st @ [annotated])))))"

fun suggest_all ::
  "completions \<times> CompletionItem list \<Rightarrow> jsstring list \<Rightarrow> fault + completions \<times> CompletionItem list" where
  "suggest_all st [] = Inr st"
| "suggest_all st (key # keys) =
     (case suggest st key of Inl f \<Rightarrow> Inl f | Inr st1 \<Rightarrow> suggest_all st1 keys)"

definition completion_items ::
  "handler_runtime \<Rightarrow> AutoCompleteResponse list \<Rightarrow> fault + CompletionItem list" where
  "completion_items R responses =
     (let completions = group_completions R responses
      in case suggest_all (completions, []) (enumeration_order (map fst completions)) of
           Inl f \<Rightarrow> Inl f
         | Inr st \<Rightarrow> Inr (snd st))"

text \<open>
  The completion handler. The filter text is the document's text over the range from
  the position to the same position; \<open>|| ''\<close> replaces an empty text by the empty text.
\<close>

record CompletionContext =
  triggerKind :: nat
  triggerCharacter :: "jsstring option"

record TextDocumentPositionParams =
  textDocument_uri :: jsstring
  position :: position

record CompletionParams = TextDocumentPositionParams +
  completion_context :: "CompletionContext option"

record AutoCompleteRequest = backend_request +
  WordToComplete :: jsstring
  WantDocumentationForEveryCompletionResult :: bool
  WantKind :: bool
  WantReturnType :: bool
  WantImportableTypes :: bool
  WantSnippet :: bool

definition wordToComplete :: "handler_runtime \<Rightarrow> text_document \<Rightarrow> position \<Rightarrow> jsstring" where
  "wordToComplete R lspDocument p =
     (let lspPosition = \<lparr>line = line p, character = character p\<rparr>;
          rng = \<lparr>range_start = lspPosition, range_end = lspPosition\<rparr>;
          t = getText_range R lspDocument rng
      in if t = [] then [] else t)"

text \<open>
  The handler up to its \<open>await\<close>: the request it hands to \<open>makeRequest\<close>. A missing
  document throws at \<open>getText\<close>, a missing \<open>context\<close> (the field \<open>completion_context\<close>) at \<open>context.triggerKind\<close>.
\<close>

definition completion_request ::
  "handler_runtime \<Rightarrow> csharp_server \<Rightarrow> 'a CompletionParams_scheme \<Rightarrow> fault + AutoCompleteRequest" where
  "completion_request R s params =
     (case openedDocumentUris s (textDocument_uri params) of
        None \<Rightarrow> Inl TypeError
      | Some lspDocument \<Rightarrow>
          (let w = wordToComplete R lspDocument (position params) in
           case createRequest R (Some lspDocument) (At (position params)) False of
             Inl f \<Rightarrow> Inl f
           | Inr req \<Rightarrow>
               (case completion_context params of
                  None \<Rightarrow> Inl TypeError
                | Some c \<Rightarrow>
                    Inr \<lparr>Line = Line req, Column = Column req, Buffer = Buffer req,
                         FileName = FileName req, WordToComplete = w,
                         WantDocumentationForEveryCompletionResult = True, WantKind = True,
                         WantReturnType = True, WantImportableTypes = True,
                         WantSnippet = True\<rparr>)))"

text \<open>
  What the handler returns: the bare empty array of the early return, or the list made
  by \<open>CompletionList.create\<close> with its \<open>isIncomplete\<close> mark.
\<close>

datatype completion_result =
    ItemArray "CompletionItem list"
  | CompletionList "CompletionItem list" bool

definition completion_reply ::
  "handler_runtime \<Rightarrow> jsstring \<Rightarrow> AutoCompleteResponse list option \<Rightarrow> fault + completion_result" where
  "completion_reply R w responses =
     (case responses of
        None \<Rightarrow> Inr (ItemArray [])
      | Some rs \<Rightarrow>
          (case completion_items R rs of
             Inl f \<Rightarrow> Inl f
           | Inr result \<Rightarrow> Inr (CompletionList result (if length w > 1 then False else True))))"

definition completion_handler ::
  "handler_runtime \<Rightarrow> csharp_server \<Rightarrow> 'a CompletionParams_scheme \<Rightarrow>
     AutoCompleteResponse list option outcome \<Rightarrow> fault + completion_result" where
  "completion_handler R s params reply =
     (case completion_request R s params of
        Inl f \<Rightarrow> Inl f
      | Inr request \<Rightarrow>
          (case reply of
             Rejected e \<Rightarrow> Inl (Rejection e)
           | Resolved responses \<Rightarrow> completion_reply R (WordToComplete request) responses))"

section \<open>CsharpLanguageServer: hover, definition and document highlight\<close>

record IHoverResult =
  Documentation :: "jsstring option"
  Type :: "jsstring option"
  StructuredDocumentation :: "json option"

datatype marked_string =
    Plain jsstring
  | Code jsstring jsstring

fun present :: "jsstring option \<Rightarrow> bool" where
  "present None = False"
| "present (Some t) = (t \<noteq> [])"

definition hover_handler ::
  "handler_runtime \<Rightarrow> csharp_server \<Rightarrow> 'a TextDocumentPositionParams_scheme \<Rightarrow>
     IHoverResult option outcome \<Rightarrow> fault + marked_string list option" where
  "hover_handler R s params reply =
     (case openedDocumentUris s (textDocument_uri params) of
        None \<Rightarrow> Inl TypeError
      | Some lspDocument \<Rightarrow>
          (case reply of
             Rejected e \<Rightarrow> Inl (Rejection e)
           | Resolved None \<Rightarrow> Inr None
           | Resolved (Some result) \<Rightarrow>
               (case Type result of
                  None \<Rightarrow> Inr None
                | Some t \<Rightarrow>
                    if t = [] then Inr None
                    else Inr (Some [Plain (getDocumentationString R (StructuredDocumentation result)),
                                    Code (js ''csharp'') t]))))"

text \<open>
  \<open>createUri\<close>. The first \<open>replace\<close> removes every backslash (code unit 92). In the
  second the dot matches no line terminator (line feed, carriage return, line separator,
  paragraph separator), so in every line that holds a slash (code unit 47) the marker
  is put after the last slash of the line.
\<close>

definition is_line_terminator :: "codeunit \<Rightarrow> bool" where
  "is_line_terminator c = (c = 10 \<or> c = 13 \<or> c = 8232 \<or> c = 8233)"

fun mark_line :: "jsstring \<Rightarrow> jsstring" where
  "mark_line [] = []"
| "mark_line (c # cs) =
     (if c = 47 \<and> 47 \<notin> set cs then c # js ''[metadata] '' @ cs else c # mark_line cs)"

function mark_lines :: "jsstring \<Rightarrow> jsstring" where
  "mark_lines t =
     (case dropWhile (\<lambda>c. \<not> is_line_terminator c) t of
        [] \<Rightarrow> mark_line t
      | c # rest \<Rightarrow> mark_line (takeWhile (\<lambda>c. \<not> is_line_terminator c) t) @ c # mark_lines rest)"
  by pat_completeness auto
termination
proof (relation "measure length")
  fix t :: jsstring and c rest
  assume "dropWhile (\<lambda>c. \<not> is_line_terminator c) t = c # rest"
  then have "length (c # rest) \<le> length t"
    by (metis length_dropWhile_le)
  then show "(rest, t) \<in> measure length" by simp
qed simp

declare mark_lines.simps [simp del]

definition createUri :: "jsstring \<Rightarrow> doc_uri" where
  "createUri sourceName =
     Parsed (js ''omnisharp-metadata'' @ js ''://'' @ mark_lines (filter (\<lambda>c. c \<noteq> 92) sourceName))"

text \<open>
  The scheme of a document identifier. \<open>URI.parse\<close> splits its argument by a regular
  expression whose scheme group is the non-empty run of characters other than colon,
  slash, question mark and hash (code units 58, 47, 63, 35) that a colon follows;
  \<open>URI.file\<close> gives the scheme \<open>file\<close>.
\<close>

definition uri_scheme :: "jsstring \<Rightarrow> jsstring" where
  "uri_scheme t =
     (let p = takeWhile (\<lambda>c. c \<noteq> 58 \<and> c \<noteq> 47 \<and> c \<noteq> 63 \<and> c \<noteq> 35) t
      in if p \<noteq> [] \<and> take 1 (drop (length p) t) = js '':'' then p else [])"

fun scheme_of :: "doc_uri \<Rightarrow> jsstring" where
  "scheme_of (Parsed t) = uri_scheme t"
| "scheme_of (File path) = js ''file''"

record MetadataSource =
  AssemblyName :: jsstring
  VersionNumber :: jsstring
  ProjectName :: jsstring
  Language :: jsstring
  TypeName :: jsstring

text \<open>The backend's answer to the definition request; its fields carry the prefix \<open>gd\<close>.\<close>

record GoToDefinitionResponse =
  gd_FileName :: "jsstring option"
  gd_Line :: nat
  gd_Column :: nat
  gd_EndLine :: "nat option"
  gd_EndColumn :: "nat option"
  gd_MetadataSource :: "MetadataSource option"

record MetadataResponse =
  Source :: "jsstring option"
  SourceName :: "jsstring option"

definition toLocationFromUri :: "doc_uri \<Rightarrow> GoToDefinitionResponse \<Rightarrow> location" where
  "toLocationFromUri u loc =
     (let p = \<lparr>line = gd_Line loc, character = gd_Column loc\<rparr> in
      case (gd_EndLine loc, gd_EndColumn loc) of
        (Some endLine, Some endColumn) \<Rightarrow>
          \<lparr>loc_uri = u,
           loc_range = \<lparr>range_start = p, range_end = \<lparr>line = endLine, character = endColumn\<rparr>\<rparr>\<rparr>
      | _ \<Rightarrow> \<lparr>loc_uri = u, loc_range = \<lparr>range_start = p, range_end = p\<rparr>\<rparr>)"

text \<open>
  The definition handler, with the outcomes of its two awaited requests: the definition
  request, and the metadata request made when the answer names no file. An answer that
  is \<open>null\<close> throws at \<open>result.MetadataSource\<close>.
\<close>

definition definition_handler ::
  "handler_runtime \<Rightarrow> csharp_server \<Rightarrow> 'a TextDocumentPositionParams_scheme \<Rightarrow>
     GoToDefinitionResponse option outcome \<Rightarrow> MetadataResponse option outcome \<Rightarrow>
     fault + location option" where
  "definition_handler R s params reply metadataReply =
     (case createRequest R (openedDocumentUris s (textDocument_uri params)) (At (position params)) False of
        Inl f \<Rightarrow> Inl f
      | Inr request \<Rightarrow>
          (case reply of
             Rejected e \<Rightarrow> Inl (Rejection e)
           | Resolved None \<Rightarrow> Inl TypeError
           | Resolved (Some result) \<Rightarrow>
               if present (gd_FileName result)
               then (let fileName = (case gd_FileName result of Some n \<Rightarrow> n | None \<Rightarrow> []) in
                     if take (length (js ''$metadata$'')) fileName = js ''$metadata$''
                     then Inr (Some (toLocationFromUri (createUri fileName) result))
                     else Inr (Some (toLocationFromUri (File fileName) result)))
               else (case gd_MetadataSource result of
                       None \<Rightarrow> Inr None
                     | Some metadataSource \<Rightarrow>
                         (case metadataReply of
                            Rejected e \<Rightarrow> Inl (Rejection e)
                          | Resolved None \<Rightarrow> Inr None
                          | Resolved (Some metadataResponse) \<Rightarrow>
                              if \<not> present (Source metadataResponse) then Inr None
                              else (case SourceName metadataResponse of
                                      None \<Rightarrow> Inr None
                                    | Some sourceName \<Rightarrow>
                                        if sourceName = [] then Inr None
                                        else (let p = \<lparr>line = gd_Line result, character = gd_Column result\<rparr>
                                              in Inr (Some \<lparr>loc_uri = createUri sourceName,
                                                            loc_range = \<lparr>range_start = p, range_end = p\<rparr>\<rparr>)))))))"

text \<open>The document-highlight handler answers \<open>null\<close> whatever the backend found.\<close>

definition documentHighlight_handler ::
  "handler_runtime \<Rightarrow> csharp_server \<Rightarrow> 'a TextDocumentPositionParams_scheme \<Rightarrow>
     json option outcome \<Rightarrow> fault + json" where
  "documentHighlight_handler R s params reply =
     (case createRequest R (openedDocumentUris s (textDocument_uri params)) (At (position params)) False of
        Inl f \<Rightarrow> Inl f
      | Inr request \<Rightarrow>
          (case reply of
             Rejected e \<Rightarrow> Inl (Rejection e)
           | Resolved result \<Rightarrow> Inr JNull))"

section \<open>JavaLanguageServer: framing the backend's messages\<close>

text \<open>
  Modelled from the spec: the constants \<open>contentLength\<close> and \<open>CRLF\<close> of \<open>config\<close> are not
  among the sources. The header of a frame is \<open>Content-Length: <n>\<close> followed by carriage
  return and line feed, twice.
\<close>

definition contentLength :: jsstring where
  "contentLength = js ''Content-Length: ''"

definition CRLF :: jsstring where
  "CRLF = [13, 10]"

text \<open>
  \<open>Buffer.byteLength(string, 'utf-8')\<close> counts, code unit by code unit, the bytes of the
  UTF-8 encoding: one below \<open>0x80\<close>, two below \<open>0x800\<close>, four for a surrogate pair (a code
  unit from \<open>0xD800\<close> to \<open>0xDBFF\<close> followed by one from \<open>0xDC00\<close> to \<open>0xDFFF\<close>), and three
  otherwise (an unpaired surrogate is encoded as the replacement character).
\<close>

definition is_high_surrogate :: "codeunit \<Rightarrow> bool" where
  "is_high_surrogate c = (55296 \<le> c \<and> c \<le> 56319)"

definition is_low_surrogate :: "codeunit \<Rightarrow> bool" where
  "is_low_surrogate c = (56320 \<le> c \<and> c \<le> 57343)"

fun byteLength :: "jsstring \<Rightarrow> nat" where
  "byteLength [] = 0"
| "byteLength [c] = (if c < 128 then 1 else if c < 2048 then 2 else 3)"
| "byteLength (c # d # cs) =
     (if c < 128 then 1 + byteLength (d # cs)
      else if c < 2048 then 2 + byteLength (d # cs)
      else if is_high_surrogate c \<and> is_low_surrogate d then 4 + byteLength cs
      else 3 + byteLength (d # cs))"

text \<open>
  The listener that \<open>startConversion\<close> registers on the backend's message reader; the
  serialization is that of \<open>JSON.stringify\<close>, taken from outside.
\<close>

definition frame :: "jsstring \<Rightarrow> jsstring" where
  "frame jsonrpcData =
     (let len = byteLength jsonrpcData;
          headers = [contentLength, decimal len, CRLF, CRLF]
      in concat headers @ jsonrpcData)"

definition startConversion_listener :: "(json \<Rightarrow> jsstring) \<Rightarrow> java_server \<Rightarrow> json \<Rightarrow> java_server" where
  "startConversion_listener JSON_stringify s d =
     s\<lparr>jsent := jsent s @ [frame (JSON_stringify d)]\<rparr>"

section \<open>Reference definitions\<close>

text \<open>
  The UTF-8 encoding of a string of UTF-16 code units, byte by byte: the bytes that a
  frame's payload takes on the wire.
\<close>

definition code_point :: "codeunit \<Rightarrow> codeunit \<Rightarrow> nat" where
  "code_point hi lo = 65536 + (unat hi - 55296) * 1024 + (unat lo - 56320)"

definition utf8_of_nat :: "nat \<Rightarrow> 8 word list" where
  "utf8_of_nat n =
     (if n < 128 then [of_nat n]
      else if n < 2048 then [of_nat (192 + n div 64), of_nat (128 + n mod 64)]
      else if n < 65536
      then [of_nat (224 + n div 4096), of_nat (128 + n div 64 mod 64), of_nat (128 + n mod 64)]
      else [of_nat (240 + n div 262144), of_nat (128 + n div 4096 mod 64),
            of_nat (128 + n div 64 mod 64), of_nat (128 + n mod 64)])"

fun utf8_encode :: "jsstring \<Rightarrow> 8 word list" where
  "utf8_encode [] = []"
| "utf8_encode [c] =
     (if is_high_surrogate c \<or> is_low_surrogate c then [239, 191, 189] else utf8_of_nat (unat c))"
| "utf8_encode (c # d # cs) =
     (if is_high_surrogate c \<and> is_low_surrogate d then utf8_of_nat (code_point c d) @ utf8_encode cs
      else if is_high_surrogate c \<or> is_low_surrogate c then [239, 191, 189] @ utf8_encode (d # cs)
      else utf8_of_nat (unat c) @ utf8_encode (d # cs))"

text \<open>Reading a decimal header value back.\<close>

definition read_decimal :: "jsstring \<Rightarrow> nat" where
  "read_decimal t = foldl (\<lambda>v c. 10 * v + (unat c - 48)) 0 t"

text \<open>
  Completion grouping in the spec's words: among the translated candidates, those of one
  label form a group; a group of one stands alone; a group of \<open>N > 1\<close> collapses to its
  first member, the detail annotated with the overload count \<open>N - 1\<close>, pre-selected if
  any member was.
\<close>

definition group_of :: "jsstring \<Rightarrow> CompletionItem list \<Rightarrow> CompletionItem list" where
  "group_of l candidates = filter (\<lambda>c. label c = l) candidates"

definition grouped_item :: "CompletionItem list \<Rightarrow> jsstring \<Rightarrow> CompletionItem" where
  "grouped_item candidates l =
     (let g = group_of l candidates in
      if length g = 1 then hd g
      else (hd g)\<lparr>detail := detail (hd g) @ js '' (+ '' @ decimal (length g - 1) @ js '' overload(s))'',
                  preselect := list_ex preselect g\<rparr>)"

text \<open>The labels of a candidate list, each once, in the order of first appearance.\<close>

definition labels_of :: "CompletionItem list \<Rightarrow> jsstring list" where
  "labels_of candidates = rev (remdups (rev (map label candidates)))"

text \<open>The translated result in the spec's words: one grouped item for each label.\<close>

definition grouped_result :: "handler_runtime \<Rightarrow> AutoCompleteResponse list \<Rightarrow> CompletionItem list" where
  "grouped_result R responses =
     map (grouped_item (map (toCompletionItem R) responses))
       (enumeration_order (labels_of (map (toCompletionItem R) responses)))"

text \<open>The group stored under a label, and the suggestion that the second loop makes of a group.\<close>

definition group_entry :: "CompletionItem list \<Rightarrow> jsstring \<Rightarrow> jsstring \<times> completionSet" where
  "group_entry candidates l =
     (l, \<lparr>items = group_of l candidates, set_preselect = list_ex preselect (group_of l candidates)\<rparr>)"

definition suggestion_of :: "completionSet \<Rightarrow> CompletionItem" where
  "suggestion_of cs =
     (if length (items cs) - 1 = 0 then hd (items cs)
      else annotate (hd (items cs)) (length (items cs) - 1) (set_preselect cs))"

text \<open>
  A line is a protocol message, in the spec's words, when it begins with an opening
  brace, parses as JSON and carries the type \<open>response\<close> or \<open>event\<close>. The server processes
  a line when it hands it to one of its two packet handlers.
\<close>

definition is_protocol_message :: "line_runtime \<Rightarrow> jsstring \<Rightarrow> bool" where
  "is_protocol_message E lineString =
     (take 1 (removeBOMFromString E lineString) = js ''{'' \<and>
      (case JSON_parse E (removeBOMFromString E lineString) of
         None \<Rightarrow> False
       | Some packet \<Rightarrow>
           property packet ''Type'' = Some (JStr (js ''response'')) \<or>
           property packet ''Type'' = Some (JStr (js ''event''))))"

fun processed :: "line_class \<Rightarrow> bool" where
  "processed (ResponsePacket packet) = True"
| "processed (EventPacket packet) = True"
| "processed other = False"

text \<open>The metadata request yields a source when its answer carries a source text and a source name.\<close>

definition yields_source :: "MetadataResponse option \<Rightarrow> bool" where
  "yields_source metadataResponse =
     (case metadataResponse of
        None \<Rightarrow> False
      | Some m \<Rightarrow> present (Source m) \<and> present (SourceName m))"

definition source_name :: "MetadataResponse option \<Rightarrow> jsstring" where
  "source_name metadataResponse =
     (case metadataResponse of
        None \<Rightarrow> []
      | Some m \<Rightarrow> (case SourceName m of None \<Rightarrow> [] | Some n \<Rightarrow> n))"

text \<open>
  Whether a completion answer is marked incomplete. A bare array of items carries no
  mark; the protocol reads it as a complete list.
\<close>

fun marked_incomplete :: "completion_result \<Rightarrow> bool" where
  "marked_incomplete (ItemArray result) = False"
| "marked_incomplete (CompletionList result incomplete) = incomplete"

text \<open>
  Reading a virtual document's identifier back: the marker is taken out after the last
  slash of every line, and what follows the scheme and the two slashes is the source
  name it was made from.
\<close>

fun unmark_line :: "jsstring \<Rightarrow> jsstring" where
  "unmark_line [] = []"
| "unmark_line (c # cs) =
     (if c = 47 \<and> 47 \<notin> set cs then c # drop (length (js ''[metadata] '')) cs
      else c # unmark_line cs)"

function unmark_lines :: "jsstring \<Rightarrow> jsstring" where
  "unmark_lines t =
     (case dropWhile (\<lambda>c. \<not> is_line_terminator c) t of
        [] \<Rightarrow> unmark_line t
      | c # rest \<Rightarrow> unmark_line (takeWhile (\<lambda>c. \<not> is_line_terminator c) t) @ c # unmark_lines rest)"
  by pat_completeness auto
termination
proof (relation "measure length")
  fix t :: jsstring and c rest
  assume "dropWhile (\<lambda>c. \<not> is_line_terminator c) t = c # rest"
  then have "length (c # rest) \<le> length t"
    by (metis length_dropWhile_le)
  then show "(rest, t) \<in> measure length" by simp
qed simp

declare unmark_lines.simps [simp del]

fun source_of_uri :: "doc_uri \<Rightarrow> jsstring" where
  "source_of_uri (Parsed t) = unmark_lines (drop (length (js ''omnisharp-metadata://'')) t)"
| "source_of_uri (File path) = path"

section \<open>Example inputs\<close>

definition example_runtime :: handler_runtime where
  "example_runtime =
     \<lparr>offsetAt = (\<lambda>d p. character p),
      URI_parse = (\<lambda>t. \<lparr>scheme = js ''file'', authority = [], fsPath = t\<rparr>),
      extractSummaryText = (\<lambda>d. case d of None \<Rightarrow> [] | Some t \<Rightarrow> t),
      getDocumentationString = (\<lambda>d. [])\<rparr>"

definition candidate :: "string \<Rightarrow> string \<Rightarrow> bool \<Rightarrow> AutoCompleteResponse" where
  "candidate l d p =
     \<lparr>CompletionText = js l, ReturnType = None, DisplayText = js d, Description = None,
      Kind = js ''Method'', IsSuggestionMode = False, Preselect = p\<rparr>"

definition example_candidates :: "AutoCompleteResponse list" where
  "example_candidates =
     [candidate ''foo'' ''int'' False, candidate ''foo'' ''string'' True,
      candidate ''bar'' ''void'' False]"

definition example_java_server :: java_server where
  "example_java_server =
     \<lparr>jspaceKey = js ''space'', jdestroyed = False,
      jprocess = Some \<lparr>stdin_lines = [], kill_calls = 0\<rparr>,
      jservicesManager = [js ''space'' \<mapsto> 1], jlog = [], jsent = []\<rparr>"

definition example_server :: csharp_server where
  "example_server = start (js ''/projects'') (constructor (js ''space'') [js ''space'' \<mapsto> 1])"

definition example_request :: request where
  "example_request = \<lparr>command = js ''/typelookup'', data = None, promise = 0\<rparr>"

definition example_document :: text_document where
  "example_document =
     \<lparr>uri = js ''file:///a.cs'', languageId = js ''csharp'', version = 1, content = js ''Console.Wr''\<rparr>"

definition example_params :: CompletionParams where
  "example_params =
     \<lparr>textDocument_uri = js ''file:///a.cs'', position = \<lparr>line = 0, character = 10\<rparr>,
      completion_context = Some \<lparr>triggerKind = 1, triggerCharacter = None\<rparr>\<rparr>"

definition example_definition :: GoToDefinitionResponse where
  "example_definition =
     \<lparr>gd_FileName = None, gd_Line = 3, gd_Column = 7, gd_EndLine = None, gd_EndColumn = None,
      gd_MetadataSource = Some \<lparr>AssemblyName = js ''System.Runtime'', VersionNumber = js ''4.2.1.0'',
        ProjectName = js ''app'', Language = js ''C#'', TypeName = js ''System.String''\<rparr>\<rparr>"

definition example_metadata :: MetadataResponse where
  "example_metadata =
     \<lparr>Source = Some (js ''namespace System {}''),
      SourceName = Some (js ''$metadata$/Project/app/Assembly/System.Runtime/Symbol/System/String.cs'')\<rparr>"

definition example_opened :: csharp_server where
  "example_opened = example_server\<lparr>openedDocumentUris := [js ''file:///a.cs'' \<mapsto> example_document]\<rparr>"

text \<open>An event line, with its four double quotes written as code units.\<close>

definition example_event_line :: jsstring where
  "example_event_line =
     js ''{'' @ [34] @ js ''Type'' @ [34] @ js '':'' @ [34] @ js ''event'' @ [34] @ js ''}''"

text \<open>A response line that answers the projects request of the example server.\<close>

definition quoted :: "string \<Rightarrow> jsstring" where
  "quoted t = [34] @ js t @ [34]"

definition example_response_line :: jsstring where
  "example_response_line =
     js ''{'' @ quoted ''Type'' @ js '':'' @ quoted ''response'' @ js '','' @
     quoted ''Command'' @ js '':'' @ quoted ''/projects'' @ js '','' @
     quoted ''Request_seq'' @ js '':2,'' @ quoted ''Success'' @ js '':true,'' @
     quoted ''Body'' @ js '':{}}''"

definition example_response_packet :: "(jsstring \<times> json) list" where
  "example_response_packet =
     [(js ''Type'', JStr (js ''response'')), (js ''Command'', JStr (js ''/projects'')),
      (js ''Request_seq'', JNum 2), (js ''Success'', JBool True), (js ''Body'', JObj [])]"

definition example_parser :: line_runtime where
  "example_parser =
     \<lparr>removeBOMFromString = (\<lambda>t. if take 1 t = [65279] then drop 1 t else t),
      JSON_parse = (\<lambda>t. if t = example_event_line then Some [(js ''Type'', JStr (js ''event''))]
                         else if t = example_response_line then Some example_response_packet
                         else if t = js ''{}'' then Some [] else None)\<rparr>"

section \<open>Facts about the example inputs and the JavaScript values\<close>

lemma js_add_one_small: "n < 2 ^ 53 \<Longrightarrow> js_add_one n = Suc n"
  by (simp add: js_add_one_def)

lemma example_server_facts:
  "nextId example_server = 2 \<and> promises example_server = [Pending]
   \<and> map fst (waiting example_server) = [2] \<and> log example_server = []
   \<and> (\<exists>l. serverProcess example_server = Some \<lparr>stdin_lines = l, kill_calls = 0\<rparr>)"
  by (simp add: example_server_def start_def constructor_def makeRequest_def enqueue_def
      underscore_makeRequest_def js_add_one_def Let_def)

section \<open>Sequence numbers\<close>

lemma dispatch_all_append:
  "dispatch_all s (xs @ ys) =
     (fst (dispatch_all s xs) @ fst (dispatch_all (snd (dispatch_all s xs)) ys),
      snd (dispatch_all (snd (dispatch_all s xs)) ys))"
  by (induction xs arbitrary: s) (auto simp: Let_def split: prod.splits)

lemma dispatch_all_exact:
  "serverProcess s \<noteq> None \<Longrightarrow> nextId s + length rs \<le> 2 ^ 53 \<Longrightarrow>
     fst (dispatch_all s rs) = map Some [Suc (nextId s) ..< Suc (nextId s + length rs)]
     \<and> nextId (snd (dispatch_all s rs)) = nextId s + length rs
     \<and> serverProcess (snd (dispatch_all s rs)) \<noteq> None"
proof (induction rs arbitrary: s)
  case Nil
  then show ?case by simp
next
  case (Cons r rs)
  from Cons.prems obtain p where p: "serverProcess s = Some p" by auto
  from Cons.prems have small: "nextId s < 2 ^ 53" by simp
  define s1 where "s1 = snd (underscore_makeRequest s r)"
  have step: "underscore_makeRequest s r = (Some (Suc (nextId s)), s1)"
    and n1: "nextId s1 = Suc (nextId s)" and p1: "serverProcess s1 \<noteq> None"
    using p small by (simp_all add: s1_def underscore_makeRequest_def js_add_one_small Let_def)
  from Cons.prems n1 have "nextId s1 + length rs \<le> 2 ^ 53" by simp
  from Cons.IH [OF p1 this]
  have ih: "fst (dispatch_all s1 rs) = map Some [Suc (nextId s1) ..< Suc (nextId s1 + length rs)]"
    and ihn: "nextId (snd (dispatch_all s1 rs)) = nextId s1 + length rs"
    and ihp: "serverProcess (snd (dispatch_all s1 rs)) \<noteq> None"
    by simp_all
  have unfold: "dispatch_all s (r # rs) =
      (Some (Suc (nextId s)) # fst (dispatch_all s1 rs), snd (dispatch_all s1 rs))"
    by (simp add: step split: prod.splits)
  have upt: "[Suc (nextId s) ..< Suc (nextId s + length (r # rs))] =
      Suc (nextId s) # [Suc (nextId s1) ..< Suc (nextId s1 + length rs)]"
  proof -
    have lt: "Suc (nextId s) < Suc (nextId s + length (r # rs))" by simp
    have e: "Suc (nextId s + length (r # rs)) = Suc (nextId s1 + length rs)"
      by (simp add: n1)
    show ?thesis
      by (subst upt_conv_Cons [OF lt]) (simp only: e n1)
  qed
  show ?case
    unfolding unfold upt using ih ihn ihp n1 by simp
qed

lemma dispatch_at_limit:
  assumes "serverProcess s \<noteq> None" and "nextId s = 2 ^ 53 - 1"
  shows "fst (dispatch_all s [r, r']) = [Some (2 ^ 53), Some (2 ^ 53)]"
proof -
  from assms(1) obtain p where p: "serverProcess s = Some p" by auto
  have a: "js_add_one (2 ^ 53 - 1) = 2 ^ 53" by (simp add: js_add_one_def)
  have b: "js_add_one (2 ^ 53) = 2 ^ 53" by (simp add: js_add_one_def)
  show ?thesis
    using p assms(2) a b
    by (simp add: underscore_makeRequest_def Let_def split: prod.splits)
qed

text \<open>
  C9, amended. For every run of requests dispatched over the pipe of a live process, as
  long as the counter stays within \<open>2 ^ 53\<close>, the sequence numbers assigned are the
  successors of the counter one after another: strictly increasing in assignment order
  and pairwise distinct, none used twice.
\<close>

theorem sequence_numbers_increasing:
  "serverProcess s \<noteq> None \<Longrightarrow> nextId s + length rs \<le> 2 ^ 53 \<Longrightarrow>
     fst (dispatch_all s rs) = map Some [Suc (nextId s) ..< Suc (nextId s + length rs)]
     \<and> sorted_wrt (<) [Suc (nextId s) ..< Suc (nextId s + length rs)]
     \<and> distinct (fst (dispatch_all s rs))"
proof -
  assume a: "serverProcess s \<noteq> None" "nextId s + length rs \<le> 2 ^ 53"
  from dispatch_all_exact [OF a]
  have e: "fst (dispatch_all s rs) = map Some [Suc (nextId s) ..< Suc (nextId s + length rs)]"
    by simp
  have "distinct (map Some [Suc (nextId s) ..< Suc (nextId s + length rs)])"
    by (simp add: distinct_map)
  with e show ?thesis by (simp del: upt_Suc)
qed

text \<open>The theorem at the example server: the next three requests get 3, 4 and 5.\<close>

theorem sequence_numbers_increasing_witness:
  "serverProcess example_server \<noteq> None
   \<and> nextId example_server + length [example_request, example_request, example_request] \<le> 2 ^ 53
   \<and> fst (dispatch_all example_server [example_request, example_request, example_request])
       = [Some 3, Some 4, Some 5]"
proof -
  have p: "serverProcess example_server \<noteq> None" and n: "nextId example_server = 2"
    using example_server_facts by auto
  have b: "nextId example_server + length [example_request, example_request, example_request] \<le> 2 ^ 53"
    by (simp add: n)
  have "[Suc 2 ..< Suc (2 + 3)] = [3, 4, 5]" by (simp add: upt_rec)
  with sequence_numbers_increasing [OF p b] p b show ?thesis by (simp add: n)
qed

text \<open>
  C9 as stated fails for a run that carries the counter to \<open>2 ^ 53\<close>, where adding 1 to
  a JavaScript number no longer changes it: the last two requests of such a run get the
  same sequence number.
\<close>

theorem sequence_numbers_distinct_counterexample:
  "\<not> distinct (fst (dispatch_all example_server (replicate (2 ^ 53 - 1) example_request)))"
proof -
  let ?r = example_request
  define s1 where "s1 = snd (dispatch_all example_server (replicate (2 ^ 53 - 3) ?r))"
  have p: "serverProcess example_server \<noteq> None" and n: "nextId example_server = 2"
    using example_server_facts by auto
  have b: "nextId example_server + length (replicate (2 ^ 53 - 3) ?r) \<le> 2 ^ 53"
    by (simp add: n)
  from dispatch_all_exact [OF p b, THEN conjunct2]
  have n1: "nextId s1 = 2 ^ 53 - 1" and p1: "serverProcess s1 \<noteq> None"
    by (simp_all add: s1_def n)
  have split: "replicate (2 ^ 53 - 1) ?r = replicate (2 ^ 53 - 3) ?r @ [?r, ?r]"
  proof -
    have "(2::nat) ^ 53 - 1 = (2 ^ 53 - 3) + 2" by simp
    then have "replicate (2 ^ 53 - 1) ?r = replicate (2 ^ 53 - 3) ?r @ replicate 2 ?r"
      by (simp only: replicate_add)
    then show ?thesis by (simp add: numeral_2_eq_2)
  qed
  have "fst (dispatch_all example_server (replicate (2 ^ 53 - 1) ?r)) =
          fst (dispatch_all example_server (replicate (2 ^ 53 - 3) ?r)) @ [Some (2 ^ 53), Some (2 ^ 53)]"
    unfolding split dispatch_all_append
    using dispatch_at_limit [OF p1 n1] by (simp add: s1_def)
  then show ?thesis by simp
qed

section \<open>Disposal\<close>

lemma manager_dispose_twice:
  "manager_dispose (manager_dispose reg key) key = manager_dispose reg key"
  by (simp add: manager_dispose_def)

lemma java_dispose_with_process:
  "jprocess s = Some p \<Longrightarrow>
     java_dispose s =
       (Inr (), s\<lparr>jdestroyed := True,
                  jlog := jlog s @ [Info [Text (jspaceKey s @ js '' is disconnect.'')]],
                  jservicesManager := manager_dispose (jservicesManager s) (jspaceKey s),
                  jprocess := Some (p\<lparr>kill_calls := kill_calls p + 1\<rparr>)\<rparr>)"
  by (simp add: java_dispose_def kill_def Let_def)

lemma java_dispose_repeated:
  "jprocess s = Some p \<Longrightarrow>
     java_dispose_times (Suc n) s =
       s\<lparr>jdestroyed := True,
         jlog := jlog s @ replicate (Suc n) (Info [Text (jspaceKey s @ js '' is disconnect.'')]),
         jservicesManager := manager_dispose (jservicesManager s) (jspaceKey s),
         jprocess := Some (p\<lparr>kill_calls := kill_calls p + Suc n\<rparr>)\<rparr>"
proof (induction n arbitrary: s p)
  case 0
  then show ?case by (simp add: java_dispose_with_process)
next
  case (Suc n)
  define s1 where "s1 = snd (java_dispose s)"
  have s1: "s1 = s\<lparr>jdestroyed := True,
                  jlog := jlog s @ [Info [Text (jspaceKey s @ js '' is disconnect.'')]],
                  jservicesManager := manager_dispose (jservicesManager s) (jspaceKey s),
                  jprocess := Some (p\<lparr>kill_calls := kill_calls p + 1\<rparr>)\<rparr>"
    using Suc.prems by (simp add: s1_def java_dispose_with_process)
  then have p1: "jprocess s1 = Some (p\<lparr>kill_calls := kill_calls p + 1\<rparr>)" by simp
  have "java_dispose_times (Suc (Suc n)) s = java_dispose_times (Suc n) s1"
    by (simp add: s1_def)
  also have "\<dots> = s1\<lparr>jdestroyed := True,
         jlog := jlog s1 @ replicate (Suc n) (Info [Text (jspaceKey s1 @ js '' is disconnect.'')]),
         jservicesManager := manager_dispose (jservicesManager s1) (jspaceKey s1),
         jprocess := Some (p\<lparr>kill_calls := kill_calls p + 1\<rparr>\<lparr>kill_calls := kill_calls (p\<lparr>kill_calls := kill_calls p + 1\<rparr>) + Suc n\<rparr>)\<rparr>"
    by (rule Suc.IH [OF p1])
  also have "\<dots> = s\<lparr>jdestroyed := True,
         jlog := jlog s @ replicate (Suc (Suc n)) (Info [Text (jspaceKey s @ js '' is disconnect.'')]),
         jservicesManager := manager_dispose (jservicesManager s) (jspaceKey s),
         jprocess := Some (p\<lparr>kill_calls := kill_calls p + Suc (Suc n)\<rparr>)\<rparr>"
    by (simp add: s1 manager_dispose_twice)
  finally show ?case .
qed

lemma dispose_with_process:
  "serverProcess s = Some p \<Longrightarrow>
     dispose s =
       (Inr (), s\<lparr>destroyed := True,
                  log := log s @ [Info [Text (spaceKey s @ js '' is disconnect.'')]],
                  servicesManager := manager_dispose (servicesManager s) (spaceKey s),
                  serverProcess := Some (p\<lparr>kill_calls := kill_calls p + 1\<rparr>)\<rparr>)"
  by (simp add: dispose_def kill_def Let_def)

lemma dispose_repeated:
  "serverProcess s = Some p \<Longrightarrow>
     dispose_times (Suc n) s =
       s\<lparr>destroyed := True,
         log := log s @ replicate (Suc n) (Info [Text (spaceKey s @ js '' is disconnect.'')]),
         servicesManager := manager_dispose (servicesManager s) (spaceKey s),
         serverProcess := Some (p\<lparr>kill_calls := kill_calls p + Suc n\<rparr>)\<rparr>"
proof (induction n arbitrary: s p)
  case 0
  then show ?case by (simp add: dispose_with_process)
next
  case (Suc n)
  define s1 where "s1 = snd (dispose s)"
  have s1: "s1 = s\<lparr>destroyed := True,
                  log := log s @ [Info [Text (spaceKey s @ js '' is disconnect.'')]],
                  servicesManager := manager_dispose (servicesManager s) (spaceKey s),
                  serverProcess := Some (p\<lparr>kill_calls := kill_calls p + 1\<rparr>)\<rparr>"
    using Suc.prems by (simp add: s1_def dispose_with_process)
  then have p1: "serverProcess s1 = Some (p\<lparr>kill_calls := kill_calls p + 1\<rparr>)" by simp
  have "dispose_times (Suc (Suc n)) s = dispose_times (Suc n) s1"
    by (simp add: s1_def)
  also have "\<dots> = s1\<lparr>destroyed := True,
         log := log s1 @ replicate (Suc n) (Info [Text (spaceKey s1 @ js '' is disconnect.'')]),
         servicesManager := manager_dispose (servicesManager s1) (spaceKey s1),
         serverProcess := Some (p\<lparr>kill_calls := kill_calls p + 1\<rparr>\<lparr>kill_calls := kill_calls (p\<lparr>kill_calls := kill_calls p + 1\<rparr>) + Suc n\<rparr>)\<rparr>"
    by (rule Suc.IH [OF p1])
  also have "\<dots> = s\<lparr>destroyed := True,
         log := log s @ replicate (Suc (Suc n)) (Info [Text (spaceKey s @ js '' is disconnect.'')]),
         servicesManager := manager_dispose (servicesManager s) (spaceKey s),
         serverProcess := Some (p\<lparr>kill_calls := kill_calls p + Suc (Suc n)\<rparr>)\<rparr>"
    by (simp add: s1 manager_dispose_twice)
  finally show ?case .
qed

text \<open>
  C1, amended. Disposal is not guarded by the \<open>destroyed\<close> flag: every call of \<open>dispose\<close>
  sets the flag, logs, asks the registry to remove the session's key and calls \<open>kill()\<close>
  on the backend process. After \<open>n + 1\<close> calls the flag and the registry are as after
  one call, and the process has received \<open>n + 1\<close> calls of \<open>kill()\<close>, for the Java owner
  and for the C# owner alike.
\<close>

theorem dispose_repeats_kill:
  "(jprocess j = Some p \<longrightarrow>
      java_dispose_times (Suc n) j =
        j\<lparr>jdestroyed := True,
          jlog := jlog j @ replicate (Suc n) (Info [Text (jspaceKey j @ js '' is disconnect.'')]),
          jservicesManager := manager_dispose (jservicesManager j) (jspaceKey j),
          jprocess := Some (p\<lparr>kill_calls := kill_calls p + Suc n\<rparr>)\<rparr>)
   \<and> (serverProcess c = Some q \<longrightarrow>
      dispose_times (Suc n) c =
        c\<lparr>destroyed := True,
          log := log c @ replicate (Suc n) (Info [Text (spaceKey c @ js '' is disconnect.'')]),
          servicesManager := manager_dispose (servicesManager c) (spaceKey c),
          serverProcess := Some (q\<lparr>kill_calls := kill_calls q + Suc n\<rparr>)\<rparr>)"
  using java_dispose_repeated dispose_repeated by blast

text \<open>The theorem at the example owners, disposed of twice and once.\<close>

theorem dispose_repeats_kill_witness:
  "map_option kill_calls (jprocess (java_dispose_times 2 example_java_server)) = Some 2
   \<and> map_option kill_calls (jprocess (java_dispose_times 1 example_java_server)) = Some 1
   \<and> jservicesManager (java_dispose_times 2 example_java_server) (js ''space'') = None
   \<and> map_option kill_calls (serverProcess (dispose_times 2 example_server)) = Some 2
   \<and> length (log (dispose_times 2 example_server)) = 2"
proof -
  have j: "jprocess example_java_server = Some \<lparr>stdin_lines = [], kill_calls = 0\<rparr>"
    by (simp add: example_java_server_def)
  obtain l where c: "serverProcess example_server = Some \<lparr>stdin_lines = l, kill_calls = 0\<rparr>"
    using example_server_facts by blast
  have lg: "log example_server = []"
    using example_server_facts by simp
  have two: "(2::nat) = Suc 1" and one: "(1::nat) = Suc 0" by simp_all
  from dispose_repeats_kill [of example_java_server "\<lparr>stdin_lines = [], kill_calls = 0\<rparr>" 1 example_server "\<lparr>stdin_lines = l, kill_calls = 0\<rparr>"]
       dispose_repeats_kill [of example_java_server "\<lparr>stdin_lines = [], kill_calls = 0\<rparr>" 0 example_server "\<lparr>stdin_lines = l, kill_calls = 0\<rparr>"]
       j c lg
  show ?thesis
    unfolding two one by (simp add: manager_dispose_def example_java_server_def)
qed

text \<open>
  C1 as stated fails: disposing of an owner twice is not the same as disposing of it
  once, the process receives a second \<open>kill()\<close>.
\<close>

theorem dispose_idempotent_counterexample:
  "java_dispose_times 2 example_java_server \<noteq> java_dispose_times 1 example_java_server
   \<and> map_option kill_calls (jprocess (java_dispose_times 2 example_java_server)) = Some 2
   \<and> dispose_times 2 example_server \<noteq> dispose_times 1 example_server
   \<and> map_option kill_calls (serverProcess (dispose_times 2 example_server)) = Some 2"
proof -
  have j: "jprocess example_java_server = Some \<lparr>stdin_lines = [], kill_calls = 0\<rparr>"
    by (simp add: example_java_server_def)
  obtain l where c: "serverProcess example_server = Some \<lparr>stdin_lines = l, kill_calls = 0\<rparr>"
    using example_server_facts by blast
  have j2: "map_option kill_calls (jprocess (java_dispose_times 2 example_java_server)) = Some 2"
    using java_dispose_repeated [OF j, of 1]
    by (simp add: numeral_2_eq_2 del: java_dispose_times.simps)
  have j1: "map_option kill_calls (jprocess (java_dispose_times 1 example_java_server)) = Some 1"
    using java_dispose_repeated [OF j, of 0]
    by (simp del: java_dispose_times.simps)
  have c2: "map_option kill_calls (serverProcess (dispose_times 2 example_server)) = Some 2"
    using dispose_repeated [OF c, of 1]
    by (simp add: numeral_2_eq_2 del: dispose_times.simps)
  have c1: "map_option kill_calls (serverProcess (dispose_times 1 example_server)) = Some 1"
    using dispose_repeated [OF c, of 0]
    by (simp del: dispose_times.simps)
  from j1 j2 have "java_dispose_times 2 example_java_server \<noteq> java_dispose_times 1 example_java_server"
    by auto
  moreover from c1 c2 have "dispose_times 2 example_server \<noteq> dispose_times 1 example_server"
    by auto
  ultimately show ?thesis using j2 c2 by simp
qed

section \<open>Completion: grouping by label\<close>

lemma labels_of_snoc:
  "labels_of (cands @ [c]) =
     (if label c \<in> set (labels_of cands) then labels_of cands else labels_of cands @ [label c])"
  by (simp add: labels_of_def)

lemma distinct_labels_of: "distinct (labels_of cands)"
  by (simp add: labels_of_def)

lemma set_labels_of: "set (labels_of cands) = label ` set cands"
  by (simp add: labels_of_def)

lemma group_of_snoc:
  "group_of l (cands @ [c]) = group_of l cands @ (if label c = l then [c] else [])"
  by (simp add: group_of_def)

lemma group_of_empty: "l \<notin> label ` set cands \<Longrightarrow> group_of l cands = []"
  by (auto simp: group_of_def filter_empty_conv)

lemma group_of_nonempty: "l \<in> label ` set cands \<Longrightarrow> group_of l cands \<noteq> []"
  by (auto simp: group_of_def filter_empty_conv)

lemma add_completion_new:
  "label c \<notin> fst ` set al \<Longrightarrow>
     add_completion al c = al @ [(label c, \<lparr>items = [c], set_preselect = preselect c\<rparr>)]"
  by (induction al) auto

lemma add_completion_old:
  "distinct ks \<Longrightarrow> label c \<in> set ks \<Longrightarrow>
     add_completion (map (group_entry cands) ks) c = map (group_entry (cands @ [c])) ks"
proof (induction ks)
  case Nil
  then show ?case by simp
next
  case (Cons k ks)
  show ?case
  proof (cases "k = label c")
    case True
    with Cons.prems have "label c \<notin> set ks" by auto
    then have "map (group_entry (cands @ [c])) ks = map (group_entry cands) ks"
      by (auto simp: group_entry_def group_of_snoc)
    with True show ?thesis
      by (simp add: group_entry_def group_of_snoc)
  next
    case False
    with Cons show ?thesis
      by (simp add: group_entry_def group_of_snoc)
  qed
qed

lemma foldl_add_completion:
  "foldl add_completion [] cands = map (group_entry cands) (labels_of cands)"
proof (induction cands rule: rev_induct)
  case Nil
  then show ?case by (simp add: labels_of_def)
next
  case (snoc c cands)
  show ?case
  proof (cases "label c \<in> set (labels_of cands)")
    case True
    then show ?thesis
      using snoc add_completion_old [OF distinct_labels_of True, of cands]
      by (simp add: labels_of_snoc)
  next
    case False
    then have nin: "label c \<notin> fst ` set (map (group_entry cands) (labels_of cands))"
      by (auto simp: group_entry_def)
    have same: "map (group_entry (cands @ [c])) (labels_of cands) = map (group_entry cands) (labels_of cands)"
      using False by (auto simp: group_entry_def group_of_snoc)
    have new: "group_entry (cands @ [c]) (label c) = (label c, \<lparr>items = [c], set_preselect = preselect c\<rparr>)"
      using False by (simp add: group_entry_def group_of_snoc group_of_empty set_labels_of)
    show ?thesis
      using False snoc add_completion_new [OF nin] same new
      by (simp add: labels_of_snoc)
  qed
qed

lemma map_of_filter_other:
  "k \<noteq> key \<Longrightarrow> map_of (filter (\<lambda>e. fst e \<noteq> key) al) k = map_of al k"
  by (induction al) auto

lemma map_of_map_other:
  "k \<noteq> key \<Longrightarrow> map_of (map (\<lambda>e. if fst e = key then (key, v) else e) al) k = map_of al k"
  by (induction al) auto

lemma suggest_step:
  assumes "map_of al key = Some cs" and "items cs \<noteq> []"
  shows "\<exists>al1. suggest (al, res) key = Inr (al1, res @ [suggestion_of cs])
           \<and> (\<forall>k. k \<noteq> key \<longrightarrow> map_of al1 k = map_of al k)"
proof (cases "items cs")
  case Nil
  with assms show ?thesis by simp
next
  case (Cons sg others)
  show ?thesis
  proof (cases "others = []")
    case True
    with Cons assms(1) show ?thesis
      by (simp add: suggest_def suggestion_of_def map_of_filter_other)
  next
    case False
    with Cons assms(1) show ?thesis
      by (simp add: suggest_def suggestion_of_def Let_def map_of_map_other)
  qed
qed

lemma suggest_all_result:
  "distinct keys \<Longrightarrow>
   \<forall>k \<in> set keys. \<exists>cs. map_of al k = Some cs \<and> items cs \<noteq> [] \<and> sel k = suggestion_of cs \<Longrightarrow>
     \<exists>al1. suggest_all (al, res) keys = Inr (al1, res @ map sel keys)"
proof (induction keys arbitrary: al res)
  case Nil
  then show ?case by simp
next
  case (Cons key keys)
  from Cons.prems obtain cs where
    cs: "map_of al key = Some cs" "items cs \<noteq> []" "sel key = suggestion_of cs"
    by auto
  from suggest_step [OF cs(1,2), of res] obtain al1 where
    st: "suggest (al, res) key = Inr (al1, res @ [suggestion_of cs])"
    and other: "\<forall>k. k \<noteq> key \<longrightarrow> map_of al1 k = map_of al k"
    by blast
  from Cons.prems have d: "distinct keys" and nk: "key \<notin> set keys" by auto
  have "\<forall>k \<in> set keys. \<exists>cs. map_of al1 k = Some cs \<and> items cs \<noteq> [] \<and> sel k = suggestion_of cs"
  proof
    fix k assume k: "k \<in> set keys"
    with nk have "k \<noteq> key" by auto
    with other have "map_of al1 k = map_of al k" by simp
    with Cons.prems(2) k
    show "\<exists>cs. map_of al1 k = Some cs \<and> items cs \<noteq> [] \<and> sel k = suggestion_of cs"
      by auto
  qed
  from Cons.IH [OF d this, of "res @ [suggestion_of cs]"] obtain al2 where
    "suggest_all (al1, res @ [suggestion_of cs]) keys =
       Inr (al2, (res @ [suggestion_of cs]) @ map sel keys)"
    by blast
  with st cs(3) show ?case by simp
qed

lemma map_of_group_entry:
  "k \<in> set ks \<Longrightarrow> map_of (map (group_entry cands) ks) k = Some (snd (group_entry cands k))"
  by (induction ks) (auto simp: group_entry_def)

lemma set_enumeration_order: "set (enumeration_order ks) = set ks"
  by (auto simp: enumeration_order_def)

lemma distinct_enumeration_order: "distinct ks \<Longrightarrow> distinct (enumeration_order ks)"
  by (auto simp: enumeration_order_def)

lemma suggestion_of_group_entry:
  "group_of l cands \<noteq> [] \<Longrightarrow> suggestion_of (snd (group_entry cands l)) = grouped_item cands l"
  by (cases "group_of l cands")
     (auto simp: suggestion_of_def group_entry_def grouped_item_def annotate_def Let_def)

lemma completion_items_grouped:
  "completion_items R responses =
     Inr (map (grouped_item (map (toCompletionItem R) responses))
            (enumeration_order (labels_of (map (toCompletionItem R) responses))))"
proof -
  define cands where "cands = map (toCompletionItem R) responses"
  define al where "al = group_completions R responses"
  have al: "al = map (group_entry cands) (labels_of cands)"
    by (simp add: al_def cands_def group_completions_def foldl_add_completion)
  have keys: "map fst al = labels_of cands"
    by (simp add: al group_entry_def comp_def)
  have d: "distinct (enumeration_order (labels_of cands))"
    by (rule distinct_enumeration_order [OF distinct_labels_of])
  have "\<forall>k \<in> set (enumeration_order (labels_of cands)).
          \<exists>cs. map_of al k = Some cs \<and> items cs \<noteq> [] \<and> grouped_item cands k = suggestion_of cs"
  proof
    fix k assume "k \<in> set (enumeration_order (labels_of cands))"
    then have k: "k \<in> set (labels_of cands)" by (simp add: set_enumeration_order)
    then have ne: "group_of k cands \<noteq> []"
      by (simp add: set_labels_of group_of_nonempty)
    have "map_of al k = Some (snd (group_entry cands k))"
      unfolding al by (rule map_of_group_entry [OF k])
    moreover have "items (snd (group_entry cands k)) \<noteq> []"
      using ne by (simp add: group_entry_def)
    moreover have "grouped_item cands k = suggestion_of (snd (group_entry cands k))"
      using suggestion_of_group_entry [OF ne] by simp
    ultimately
    show "\<exists>cs. map_of al k = Some cs \<and> items cs \<noteq> [] \<and> grouped_item cands k = suggestion_of cs"
      by blast
  qed
  from suggest_all_result [OF d this, of "[]"] obtain al1 where
    "suggest_all (al, []) (enumeration_order (labels_of cands)) =
       Inr (al1, map (grouped_item cands) (enumeration_order (labels_of cands)))"
    by auto
  then show ?thesis
    using keys by (simp add: completion_items_def al_def [symmetric] cands_def [symmetric] Let_def)
qed

lemma completion_items_result: "completion_items R responses = Inr (grouped_result R responses)"
  by (simp add: completion_items_grouped grouped_result_def)

text \<open>
  C4. For every list of raw candidates the translated result is the grouping of the
  spec: one item for each label, in the order in which the labels are enumerated; a
  label with one candidate gives that candidate's item unchanged, a label with \<open>N > 1\<close>
  candidates gives the first of them with \<open>(+ N-1 overload(s))\<close> appended to its detail,
  pre-selected if and only if a member of the group was. The labels of the result are
  pairwise distinct and are exactly the labels of the candidates.
\<close>

theorem completion_groups_by_label:
  "completion_items R responses = Inr (grouped_result R responses)
   \<and> distinct (map label (grouped_result R responses))
   \<and> set (map label (grouped_result R responses)) = CompletionText ` set responses"
proof -
  let ?cands = "map (toCompletionItem R) responses"
  have lab: "label (grouped_item ?cands l) = l" if "l \<in> set (labels_of ?cands)" for l
  proof -
    from that have "group_of l ?cands \<noteq> []"
      by (simp add: set_labels_of group_of_nonempty)
    then have "hd (group_of l ?cands) \<in> set (group_of l ?cands)" by simp
    then have "label (hd (group_of l ?cands)) = l" by (simp add: group_of_def)
    then show ?thesis by (simp add: grouped_item_def Let_def)
  qed
  have m: "map label (grouped_result R responses) = enumeration_order (labels_of ?cands)"
    unfolding grouped_result_def map_map
    by (rule map_idI) (simp add: lab set_enumeration_order)
  have d: "distinct (enumeration_order (labels_of ?cands))"
    by (rule distinct_enumeration_order [OF distinct_labels_of])
  have "set (enumeration_order (labels_of ?cands)) = CompletionText ` set responses"
  proof -
    have "label (toCompletionItem R x) = CompletionText x" for x
      by (simp add: toCompletionItem_def)
    then have "label ` toCompletionItem R ` set responses = CompletionText ` set responses"
      by (simp add: image_image)
    then show ?thesis
      by (simp add: set_enumeration_order set_labels_of)
  qed
  with m d show ?thesis
    using completion_items_result [of R responses] by simp
qed

text \<open>The theorem at the spec's example: two candidates \<open>foo\<close>, one candidate \<open>bar\<close>.\<close>

lemma example_grouping:
  "grouped_result example_runtime example_candidates
   = [\<lparr>label = js ''foo'', detail = js ''int (+ 1 overload(s))'', documentation = [],
        kind = Kind_Method, insertText = js ''foo'', commitCharacters = allCommitCharacters,
        preselect = True\<rparr>,
      \<lparr>label = js ''bar'', detail = js ''void'', documentation = [], kind = Kind_Method,
        insertText = js ''bar'', commitCharacters = allCommitCharacters, preselect = False\<rparr>]"
  by code_simp

theorem completion_groups_by_label_witness:
  "completion_items example_runtime example_candidates =
     Inr [\<lparr>label = js ''foo'', detail = js ''int (+ 1 overload(s))'', documentation = [],
           kind = Kind_Method, insertText = js ''foo'', commitCharacters = allCommitCharacters,
           preselect = True\<rparr>,
          \<lparr>label = js ''bar'', detail = js ''void'', documentation = [], kind = Kind_Method,
           insertText = js ''bar'', commitCharacters = allCommitCharacters, preselect = False\<rparr>]"
  using completion_groups_by_label [of example_runtime example_candidates, THEN conjunct1]
  by (simp only: example_grouping)

section \<open>Completion: the incomplete mark and the filter text\<close>

lemma wordToComplete_empty: "wordToComplete R d p = []"
  by (simp add: wordToComplete_def getText_range_def substring_def Let_def)


lemma completion_reply_mark:
  "completion_reply R w (Some responses) =
     Inr (CompletionList (grouped_result R responses) (length w = 0 \<or> length w = 1))"
proof (cases "1 < length w")
  case True
  then have "\<not> (length w = 0 \<or> length w = 1)" by auto
  with True show ?thesis
    by (simp only: completion_reply_def completion_items_result option.case sum.case if_True)
next
  case False
  then have "length w = 0 \<or> length w = 1" by (cases w) auto
  with False show ?thesis
    by (simp only: completion_reply_def completion_items_result option.case sum.case if_False)
qed

lemma completion_reply_missing: "completion_reply R w None = Inr (ItemArray [])"
  by (simp add: completion_reply_def)

text \<open>
  C3, amended. For every completion request that reaches the backend: when the backend
  answers with a candidate list, the returned completion list is marked incomplete if
  and only if the filter text used for completion is 0 or 1 characters long (the mark
  is computed from the filter text, whatever its length); when the backend's answer is
  missing, the handler returns a bare empty array, which carries no mark, whatever the
  filter text; when the request is rejected, the rejection is the handler's error.
\<close>

theorem incomplete_iff_short_filter:
  "completion_reply R w (Some responses) =
     Inr (CompletionList (grouped_result R responses) (length w = 0 \<or> length w = 1))
   \<and> completion_reply R w None = Inr (ItemArray [])
   \<and> completion_handler R s params reply =
       (case completion_request R s params of
          Inl f \<Rightarrow> Inl f
        | Inr request \<Rightarrow>
            (case reply of
               Rejected e \<Rightarrow> Inl (Rejection e)
             | Resolved None \<Rightarrow> Inr (ItemArray [])
             | Resolved (Some candidates) \<Rightarrow>
                 Inr (CompletionList (grouped_result R candidates)
                       (length (WordToComplete request) = 0 \<or> length (WordToComplete request) = 1))))"
proof -
  have "completion_handler R s params reply =
       (case completion_request R s params of
          Inl f \<Rightarrow> Inl f
        | Inr request \<Rightarrow>
            (case reply of
               Rejected e \<Rightarrow> Inl (Rejection e)
             | Resolved None \<Rightarrow> Inr (ItemArray [])
             | Resolved (Some candidates) \<Rightarrow>
                 Inr (CompletionList (grouped_result R candidates)
                       (length (WordToComplete request) = 0 \<or> length (WordToComplete request) = 1))))"
    unfolding completion_handler_def
    by (simp add: completion_reply_mark completion_reply_missing
          split: sum.splits outcome.splits option.splits)
  with completion_reply_mark [of R w responses] completion_reply_missing [of R w]
  show ?thesis by blast
qed

text \<open>The theorem at filter texts of length 2, 1 and 0, and at a missing answer.\<close>

theorem incomplete_iff_short_filter_witness:
  "completion_reply example_runtime (js ''Co'') (Some example_candidates) =
       Inr (CompletionList (grouped_result example_runtime example_candidates) False)
   \<and> completion_reply example_runtime (js ''C'') (Some example_candidates) =
       Inr (CompletionList (grouped_result example_runtime example_candidates) True)
   \<and> completion_reply example_runtime [] (Some example_candidates) =
       Inr (CompletionList (grouped_result example_runtime example_candidates) True)
   \<and> completion_reply example_runtime [] None = Inr (ItemArray [])"
  using incomplete_iff_short_filter [of example_runtime "js ''Co''" example_candidates, THEN conjunct1]
        incomplete_iff_short_filter [of example_runtime "js ''C''" example_candidates, THEN conjunct1]
        incomplete_iff_short_filter [of example_runtime "[]" example_candidates, THEN conjunct1]
        incomplete_iff_short_filter [of example_runtime "[]" example_candidates, THEN conjunct2, THEN conjunct1]
  by (simp add: js_def)

lemma example_opened_document:
  "openedDocumentUris example_opened (js ''file:///a.cs'') = Some example_document"
  by (simp add: example_opened_def)

lemma example_completion_request:
  "\<exists>request. completion_request example_runtime example_opened example_params = Inr request"
  by (simp add: completion_request_def example_opened_document example_params_def
        createRequest_def Let_def)

text \<open>
  C3 as stated fails: with the example document open and a filter text of length 0, a
  missing answer of the backend makes the handler return the bare empty array, which is
  not marked incomplete.
\<close>

theorem short_filter_unmarked_counterexample:
  "length (wordToComplete example_runtime example_document (position example_params)) = 0
   \<and> completion_handler example_runtime example_opened example_params (Resolved None)
       = Inr (ItemArray [])
   \<and> \<not> marked_incomplete (ItemArray [])"
proof -
  from example_completion_request obtain request where
    "completion_request example_runtime example_opened example_params = Inr request" by blast
  then have "completion_handler example_runtime example_opened example_params (Resolved None)
       = Inr (ItemArray [])"
    by (simp add: completion_handler_def completion_reply_missing)
  then show ?thesis by (simp add: wordToComplete_empty)
qed



section \<open>Requests for a document that is not open\<close>

text \<open>
  C6, amended. For a position-based request (hover, completion, definition, document
  highlight) that names a document for which there is no entry, the handler throws a
  \<open>TypeError\<close> when it reads the missing document, whatever the backend would answer.
\<close>

theorem missing_document_throws:
  assumes "openedDocumentUris s (textDocument_uri params) = None"
  shows "hover_handler R s params hoverReply = Inl TypeError
       \<and> completion_handler R s params completionReply = Inl TypeError
       \<and> definition_handler R s params definitionReply metadataReply = Inl TypeError
       \<and> documentHighlight_handler R s params usagesReply = Inl TypeError"
  using assms
  by (simp add: hover_handler_def completion_handler_def completion_request_def
        definition_handler_def documentHighlight_handler_def createRequest_def Let_def)

lemma example_server_no_document:
  "openedDocumentUris example_server (textDocument_uri example_params) = None"
  by (simp add: example_server_def start_def constructor_def makeRequest_def enqueue_def
      underscore_makeRequest_def js_add_one_def Let_def)

text \<open>The theorem at the example server, where no document has been opened.\<close>

theorem missing_document_throws_witness:
  "openedDocumentUris example_server (textDocument_uri example_params) = None
   \<and> hover_handler example_runtime example_server example_params (Resolved None) = Inl TypeError
   \<and> completion_handler example_runtime example_server example_params (Resolved None) = Inl TypeError
   \<and> definition_handler example_runtime example_server example_params (Resolved None) (Resolved None)
       = Inl TypeError
   \<and> documentHighlight_handler example_runtime example_server example_params (Resolved None)
       = Inl TypeError"
  using missing_document_throws [OF example_server_no_document, of example_runtime "Resolved None" "Resolved None"
      "Resolved None" "Resolved None" "Resolved None"] example_server_no_document
  by simp

text \<open>
  C6 as stated fails: the hover handler, asked about a document that was never opened,
  faults with the exception raised by reading the missing document.
\<close>

theorem missing_document_counterexample:
  "hover_handler example_runtime example_server example_params (Resolved None) = Inl TypeError"
  using example_server_no_document by (simp add: hover_handler_def)

section \<open>The backend's exit\<close>

lemma makeRequest_without_process:
  "serverProcess s = None \<Longrightarrow>
     makeRequest s cmd dat = (Inl errMsg, s\<lparr>log := log s @ [Error [Text errMsg]]\<rparr>)"
  by (simp add: makeRequest_def)

lemma dispose_keeps_requests:
  "promises (snd (dispose s)) = promises s \<and> waiting (snd (dispose s)) = waiting s"
  by (simp add: dispose_def Let_def split: option.splits)

text \<open>
  C2, amended. The exit of the backend process and the closing of its stream have no
  listener, and disposal does not touch the requests: each leaves every pending promise
  pending and every waiting request waiting. \<open>makeRequest\<close> yields a rejected result, and
  enqueues nothing, when the server holds no process handle.
\<close>

theorem exit_leaves_requests_pending:
  "promises (on_backend_event E s ProcessExit) = promises s
   \<and> waiting (on_backend_event E s ProcessExit) = waiting s
   \<and> promises (on_backend_event E s StreamClosed) = promises s
   \<and> waiting (on_backend_event E s StreamClosed) = waiting s
   \<and> promises (snd (dispose s)) = promises s
   \<and> waiting (snd (dispose s)) = waiting s
   \<and> (serverProcess s = None \<longrightarrow>
        fst (makeRequest s cmd dat) = Inl errMsg
        \<and> waiting (snd (makeRequest s cmd dat)) = waiting s
        \<and> promises (snd (makeRequest s cmd dat)) = promises s)"
  using dispose_keeps_requests [of s] makeRequest_without_process [of s cmd dat]
  by simp

text \<open>The theorem at a server that has not been started.\<close>

theorem exit_leaves_requests_pending_witness:
  "serverProcess (constructor (js ''space'') Map.empty) = None
   \<and> fst (makeRequest (constructor (js ''space'') Map.empty) (js ''/projects'') None) = Inl errMsg
   \<and> waiting (snd (makeRequest (constructor (js ''space'') Map.empty) (js ''/projects'') None)) = []"
  using exit_leaves_requests_pending [of example_parser "constructor (js ''space'') Map.empty" "js ''/projects''" None]
  by (simp add: constructor_def)

text \<open>
  C2 as stated fails: after the exit of the example server's backend the projects
  request is still pending, and a further request is enqueued under the next number.
\<close>

theorem exit_fails_requests_counterexample:
  "promises (on_backend_event example_parser example_server ProcessExit) = [Pending]
   \<and> fst (makeRequest (on_backend_event example_parser example_server ProcessExit)
            (js ''/typelookup'') None) = Inr 1
   \<and> map fst (waiting (snd (makeRequest (on_backend_event example_parser example_server ProcessExit)
            (js ''/typelookup'') None))) = [2, 3]"
  by (simp add: example_server_def start_def constructor_def makeRequest_def enqueue_def
      underscore_makeRequest_def js_add_one_def Let_def)

section \<open>Lines of the backend\<close>

lemma truthy_response: "truthy (Some (JStr (js ''response'')))"
  by (simp add: js_def)

lemma truthy_event: "truthy (Some (JStr (js ''event'')))"
  by (simp add: js_def)

lemma response_not_event: "js ''response'' \<noteq> js ''event''"
  by (simp add: js_def)

lemma processed_classify: "processed (classify E l) = is_protocol_message E l"
proof (cases "take 1 (removeBOMFromString E l) = js ''{''")
  case False
  then show ?thesis by (simp add: classify_def is_protocol_message_def Let_def)
next
  case True
  show ?thesis
  proof (cases "JSON_parse E (removeBOMFromString E l)")
    case None
    with True show ?thesis by (simp add: classify_def is_protocol_message_def Let_def)
  next
    case (Some packet)
    with True truthy_response truthy_event show ?thesis
      by (auto simp: classify_def is_protocol_message_def Let_def)
  qed
qed

lemma unprocessed_line:
  "\<not> processed (classify E l) \<Longrightarrow> (lineReceived E s l)\<lparr>log := log s\<rparr> = s"
  by (cases "classify E l") (simp_all add: lineReceived_def)

lemma response_line_handled:
  assumes "take 1 (removeBOMFromString E l) = js ''{''"
    and "JSON_parse E (removeBOMFromString E l) = Some packet"
    and "property packet ''Type'' = Some (JStr (js ''response''))"
  shows "lineReceived E s l = handleResponsePacket s packet"
  using assms truthy_response
  by (simp add: lineReceived_def classify_def Let_def)

lemma event_line_handled:
  assumes "take 1 (removeBOMFromString E l) = js ''{''"
    and "JSON_parse E (removeBOMFromString E l) = Some packet"
    and "property packet ''Type'' = Some (JStr (js ''event''))"
  shows "lineReceived E s l = handleEventPacket s packet"
  using assms truthy_event response_not_event
  by (simp add: lineReceived_def classify_def Let_def)

text \<open>
  C10. A line is processed as a protocol message if and only if, after the removal of
  the byte-order mark, it begins with an opening brace, parses as JSON and carries the
  type \<open>response\<close> or \<open>event\<close>: a line that does so with the type \<open>response\<close> has the
  effect of the response handler on its packet, one with the type \<open>event\<close> that of the
  event handler. Every other line leaves the server as it was, the log apart: no
  pending request and no other part of the state changes.
\<close>

theorem line_processed_iff_protocol_message:
  "processed (classify E l) = is_protocol_message E l
   \<and> (take 1 (removeBOMFromString E l) = js ''{'' \<and>
        JSON_parse E (removeBOMFromString E l) = Some packet \<longrightarrow>
        (property packet ''Type'' = Some (JStr (js ''response'')) \<longrightarrow>
           lineReceived E s l = handleResponsePacket s packet) \<and>
        (property packet ''Type'' = Some (JStr (js ''event'')) \<longrightarrow>
           lineReceived E s l = handleEventPacket s packet))
   \<and> (\<not> is_protocol_message E l \<longrightarrow> (lineReceived E s l)\<lparr>log := log s\<rparr> = s)"
  using processed_classify [of E l] unprocessed_line [of E l s]
    response_line_handled [of E l packet s] event_line_handled [of E l packet s]
  by simp

lemma example_server_requests:
  "waiting example_server = [(2, \<lparr>command = js ''/projects'', data = None, promise = 0\<rparr>)]
   \<and> promises example_server = [Pending]"
  by (simp add: example_server_def start_def constructor_def makeRequest_def enqueue_def
      underscore_makeRequest_def js_add_one_def Let_def)

lemma example_response_handled:
  "promises (handleResponsePacket example_server example_response_packet) = [Fulfilled (Some (JObj []))]
   \<and> waiting (handleResponsePacket example_server example_response_packet) = []"
  using example_server_requests
  by (simp add: handleResponsePacket_def dequeue_def property_def example_response_packet_def
        settle_def drain_def js_def Let_def)

lemma example_lines_differ:
  "example_response_line \<noteq> example_event_line"
  by (simp add: example_response_line_def example_event_line_def quoted_def js_def)

text \<open>
  The theorem at a response line that settles the pending projects request, at an event
  line, at a line of log output and at an object without type.
\<close>

theorem line_processed_iff_protocol_message_witness:
  "is_protocol_message example_parser example_response_line
   \<and> promises (lineReceived example_parser example_server example_response_line)
       = [Fulfilled (Some (JObj []))]
   \<and> waiting (lineReceived example_parser example_server example_response_line) = []
   \<and> is_protocol_message example_parser example_event_line
   \<and> lineReceived example_parser example_server example_event_line = example_server
   \<and> \<not> is_protocol_message example_parser (js ''info: Starting OmniSharp'')
   \<and> (lineReceived example_parser example_server (js ''info: Starting OmniSharp''))
        \<lparr>log := log example_server\<rparr> = example_server
   \<and> \<not> is_protocol_message example_parser (js ''{}'')"
proof -
  have r1: "take 1 (removeBOMFromString example_parser example_response_line) = js ''{''"
    by (simp add: example_parser_def example_response_line_def js_def)
  have r2: "JSON_parse example_parser (removeBOMFromString example_parser example_response_line)
      = Some example_response_packet"
    using example_lines_differ
    by (simp add: example_parser_def) (simp add: example_response_line_def js_def)
  have r3: "property example_response_packet ''Type'' = Some (JStr (js ''response''))"
    by (simp add: property_def example_response_packet_def js_def)
  have e1: "take 1 (removeBOMFromString example_parser example_event_line) = js ''{''"
    by (simp add: example_parser_def example_event_line_def js_def)
  have e2: "JSON_parse example_parser (removeBOMFromString example_parser example_event_line)
      = Some [(js ''Type'', JStr (js ''event''))]"
    by (simp add: example_parser_def) (simp add: example_event_line_def js_def)
  have e3: "property [(js ''Type'', JStr (js ''event''))] ''Type'' = Some (JStr (js ''event''))"
    by (simp add: property_def)
  have a: "is_protocol_message example_parser example_response_line"
    using r1 r2 r3 by (simp add: is_protocol_message_def)
  have b: "is_protocol_message example_parser example_event_line"
    using e1 e2 e3 by (simp add: is_protocol_message_def)
  have c: "\<not> is_protocol_message example_parser (js ''info: Starting OmniSharp'')"
    by (simp add: is_protocol_message_def example_parser_def js_def)
  have d: "\<not> is_protocol_message example_parser (js ''{}'')"
    by (simp add: is_protocol_message_def example_parser_def example_event_line_def
          example_response_line_def quoted_def property_def js_def)
  from line_processed_iff_protocol_message [of example_parser example_response_line example_response_packet example_server]
    r1 r2 r3
  have h1: "lineReceived example_parser example_server example_response_line =
      handleResponsePacket example_server example_response_packet" by simp
  from line_processed_iff_protocol_message [of example_parser example_event_line "[(js ''Type'', JStr (js ''event''))]" example_server]
    e1 e2 e3
  have h2: "lineReceived example_parser example_server example_event_line = example_server"
    by (simp add: handleEventPacket_def)
  from line_processed_iff_protocol_message [of example_parser "js ''info: Starting OmniSharp''" "[]" example_server] c
  have h3: "(lineReceived example_parser example_server (js ''info: Starting OmniSharp''))
        \<lparr>log := log example_server\<rparr> = example_server" by simp
  from a b c d h1 h2 h3 example_response_handled show ?thesis by simp
qed

section \<open>Definitions in metadata\<close>

lemma scheme_of_createUri: "scheme_of (createUri n) = js ''omnisharp-metadata''"
  by (simp add: createUri_def uri_scheme_def js_def)

lemma marker_has_no_slash: "47 \<notin> set (js ''[metadata] '')"
  by (simp add: js_def)

lemma marker_has_no_terminator: "c \<in> set (js ''[metadata] '') \<Longrightarrow> \<not> is_line_terminator c"
  by (auto simp: js_def is_line_terminator_def)

lemma slash_in_mark_line: "(47 \<in> set (mark_line t)) = (47 \<in> set t)"
  by (induction t) (auto simp: marker_has_no_slash)

lemma unmark_mark_line: "unmark_line (mark_line t) = t"
proof (induction t)
  case Nil
  then show ?case by simp
next
  case (Cons c cs)
  show ?case
  proof (cases "c = 47 \<and> 47 \<notin> set cs")
    case True
    then have "mark_line (c # cs) = c # js ''[metadata] '' @ cs" by simp
    moreover from True have "47 \<notin> set (js ''[metadata] '' @ cs)"
      using marker_has_no_slash by simp
    ultimately show ?thesis using True by simp
  next
    case False
    then have m: "mark_line (c # cs) = c # mark_line cs" by auto
    from False have "\<not> (c = 47 \<and> 47 \<notin> set (mark_line cs))"
      by (simp add: slash_in_mark_line)
    with m Cons.IH show ?thesis by auto
  qed
qed

lemma mark_line_no_terminator:
  "\<forall>c \<in> set t. \<not> is_line_terminator c \<Longrightarrow> \<forall>c \<in> set (mark_line t). \<not> is_line_terminator c"
  by (induction t) (auto dest: marker_has_no_terminator)

lemma unmark_mark_lines: "unmark_lines (mark_lines t) = t"
proof (induction t rule: mark_lines.induct)
  case (1 t)
  let ?P = "\<lambda>c. \<not> is_line_terminator c"
  show ?case
  proof (cases "dropWhile ?P t")
    case Nil
    then have all: "\<forall>c \<in> set t. ?P c" by (simp add: dropWhile_eq_Nil_conv)
    have m: "mark_lines t = mark_line t"
      by (subst mark_lines.simps) (simp only: Nil list.case)
    from mark_line_no_terminator [OF all] have e: "dropWhile ?P (mark_line t) = []"
      by (simp add: dropWhile_eq_Nil_conv)
    have "unmark_lines (mark_line t) = unmark_line (mark_line t)"
      by (subst unmark_lines.simps) (simp only: e list.case)
    with m show ?thesis by (simp add: unmark_mark_line)
  next
    case (Cons c rest)
    let ?a = "takeWhile ?P t"
    have m: "mark_lines t = mark_line ?a @ c # mark_lines rest"
      by (subst mark_lines.simps) (simp only: Cons list.case)
    from Cons have c: "is_line_terminator c"
      using hd_dropWhile [of ?P t] by auto
    have "\<forall>x \<in> set ?a. ?P x" by (auto dest: set_takeWhileD)
    from mark_line_no_terminator [OF this]
    have clean: "\<And>x. x \<in> set (mark_line ?a) \<Longrightarrow> ?P x" by blast
    have d: "dropWhile ?P (mark_line ?a @ c # mark_lines rest) = c # mark_lines rest"
      using c by (simp add: dropWhile_append2 [of "mark_line ?a" ?P, OF clean])
    have tk: "takeWhile ?P (mark_line ?a @ c # mark_lines rest) = mark_line ?a"
      using c by (simp add: takeWhile_append2 [of "mark_line ?a" ?P, OF clean])
    have "unmark_lines (mark_line ?a @ c # mark_lines rest) =
            unmark_line (mark_line ?a) @ c # unmark_lines (mark_lines rest)"
      by (subst unmark_lines.simps) (simp only: d tk list.case)
    also have "\<dots> = ?a @ c # rest"
      using "1.IH" [OF Cons] by (simp add: unmark_mark_line)
    also have "\<dots> = t"
      using Cons takeWhile_dropWhile_id [of ?P t] by simp
    finally show ?thesis using m by simp
  qed
qed

lemma source_of_createUri: "source_of_uri (createUri n) = filter (\<lambda>c. c \<noteq> 92) n"
proof -
  have "drop (length (js ''omnisharp-metadata://'')) (js ''omnisharp-metadata'' @ js ''://'' @ x) = x" for x
    by (simp add: js_def)
  then show ?thesis
    by (simp add: createUri_def unmark_mark_lines)
qed

text \<open>
  C8, amended. For a definition request (on an open document, as every request that
  reached the backend is) whose answer names no file but carries a metadata source:
  when the metadata request is answered with a source, the handler returns a location
  in the document made by \<open>createUri\<close> from the answer's source name; the identifier has
  the scheme \<open>omnisharp-metadata\<close>, the source name (its backslashes removed) reads back
  from it, and it is never made from a filesystem path. When the metadata request is
  answered without a source, the handler returns the empty result and no error. When
  the metadata request fails, its rejection is the handler's error.
\<close>

theorem metadata_definition_is_virtual:
  assumes "openedDocumentUris s (textDocument_uri params) = Some d"
    and "\<not> present (gd_FileName result)"
    and "gd_MetadataSource result = Some metadataSource"
  shows "definition_handler R s params (Resolved (Some result)) metadataReply =
           (case metadataReply of
              Rejected e \<Rightarrow> Inl (Rejection e)
            | Resolved metadataResponse \<Rightarrow>
                if yields_source metadataResponse
                then Inr (Some \<lparr>loc_uri = createUri (source_name metadataResponse),
                               loc_range = \<lparr>range_start = \<lparr>line = gd_Line result, character = gd_Column result\<rparr>,
                                            range_end = \<lparr>line = gd_Line result, character = gd_Column result\<rparr>\<rparr>\<rparr>)
                else Inr None)
       \<and> scheme_of (createUri n) = js ''omnisharp-metadata''
       \<and> source_of_uri (createUri n) = filter (\<lambda>c. c \<noteq> 92) n
       \<and> createUri n \<noteq> File path"
proof -
  have "definition_handler R s params (Resolved (Some result)) metadataReply =
           (case metadataReply of
              Rejected e \<Rightarrow> Inl (Rejection e)
            | Resolved metadataResponse \<Rightarrow>
                if yields_source metadataResponse
                then Inr (Some \<lparr>loc_uri = createUri (source_name metadataResponse),
                               loc_range = \<lparr>range_start = \<lparr>line = gd_Line result, character = gd_Column result\<rparr>,
                                            range_end = \<lparr>line = gd_Line result, character = gd_Column result\<rparr>\<rparr>\<rparr>)
                else Inr None)"
    using assms
    by (auto simp: definition_handler_def createRequest_def yields_source_def source_name_def Let_def
        split: option.splits outcome.splits)
  moreover have "createUri n \<noteq> File path"
    by (simp add: createUri_def)
  ultimately show ?thesis
    using scheme_of_createUri source_of_createUri by simp
qed

lemma example_mark:
  "createUri (js ''$metadata$/Project/app/Assembly/System.Runtime/Symbol/System/String.cs'') =
     Parsed (js ''omnisharp-metadata://$metadata$/Project/app/Assembly/System.Runtime/Symbol/System/[metadata] String.cs'')"
  by code_simp

lemma example_definition_facts:
  "openedDocumentUris example_opened (textDocument_uri example_params) = Some example_document
   \<and> \<not> present (gd_FileName example_definition)
   \<and> gd_MetadataSource example_definition =
       Some \<lparr>AssemblyName = js ''System.Runtime'', VersionNumber = js ''4.2.1.0'',
             ProjectName = js ''app'', Language = js ''C#'', TypeName = js ''System.String''\<rparr>
   \<and> gd_Line example_definition = 3 \<and> gd_Column example_definition = 7"
  by (simp add: example_opened_def example_params_def example_definition_def)

text \<open>The theorem at the example answer, with and without a source.\<close>

theorem metadata_definition_is_virtual_witness:
  "openedDocumentUris example_opened (textDocument_uri example_params) = Some example_document
   \<and> \<not> present (gd_FileName example_definition)
   \<and> definition_handler example_runtime example_opened example_params
        (Resolved (Some example_definition)) (Resolved (Some example_metadata)) =
       Inr (Some \<lparr>loc_uri = Parsed (js ''omnisharp-metadata://$metadata$/Project/app/Assembly/System.Runtime/Symbol/System/[metadata] String.cs''),
                  loc_range = \<lparr>range_start = \<lparr>line = 3, character = 7\<rparr>,
                               range_end = \<lparr>line = 3, character = 7\<rparr>\<rparr>\<rparr>)
   \<and> definition_handler example_runtime example_opened example_params
        (Resolved (Some example_definition)) (Resolved None) = Inr None
   \<and> source_of_uri (Parsed (js ''omnisharp-metadata://$metadata$/Project/app/Assembly/System.Runtime/Symbol/System/[metadata] String.cs''))
       = js ''$metadata$/Project/app/Assembly/System.Runtime/Symbol/System/String.cs''"
proof -
  note f = example_definition_facts
  have o: "openedDocumentUris example_opened (textDocument_uri example_params) = Some example_document"
    and nf: "\<not> present (gd_FileName example_definition)"
    and m: "gd_MetadataSource example_definition =
       Some \<lparr>AssemblyName = js ''System.Runtime'', VersionNumber = js ''4.2.1.0'',
             ProjectName = js ''app'', Language = js ''C#'', TypeName = js ''System.String''\<rparr>"
    and l: "gd_Line example_definition = 3" "gd_Column example_definition = 7"
    using f by simp_all
  have y: "yields_source (Some example_metadata)"
    by (simp add: yields_source_def example_metadata_def js_def)
  have yn: "\<not> yields_source None" by (simp add: yields_source_def)
  have n: "source_name (Some example_metadata) =
      js ''$metadata$/Project/app/Assembly/System.Runtime/Symbol/System/String.cs''"
    by (simp add: source_name_def example_metadata_def)
  have nb: "filter (\<lambda>c. c \<noteq> 92)
        (js ''$metadata$/Project/app/Assembly/System.Runtime/Symbol/System/String.cs'')
      = js ''$metadata$/Project/app/Assembly/System.Runtime/Symbol/System/String.cs''"
    by (simp add: js_def)
  note t1 = metadata_definition_is_virtual [OF o nf m, of example_runtime "Resolved (Some example_metadata)"
      "js ''$metadata$/Project/app/Assembly/System.Runtime/Symbol/System/String.cs''"]
  note t2 = metadata_definition_is_virtual [OF o nf m, of example_runtime "Resolved None", THEN conjunct1]
  from t1 have a: "definition_handler example_runtime example_opened example_params
        (Resolved (Some example_definition)) (Resolved (Some example_metadata)) =
       Inr (Some \<lparr>loc_uri = Parsed (js ''omnisharp-metadata://$metadata$/Project/app/Assembly/System.Runtime/Symbol/System/[metadata] String.cs''),
                  loc_range = \<lparr>range_start = \<lparr>line = 3, character = 7\<rparr>,
                               range_end = \<lparr>line = 3, character = 7\<rparr>\<rparr>\<rparr>)"
    by (simp only: outcome.case y n l example_mark if_True)
  from t2 yn have b: "definition_handler example_runtime example_opened example_params
        (Resolved (Some example_definition)) (Resolved None) = Inr None"
    by (simp only: outcome.case if_False)
  from t1 have c: "source_of_uri (Parsed (js ''omnisharp-metadata://$metadata$/Project/app/Assembly/System.Runtime/Symbol/System/[metadata] String.cs''))
       = js ''$metadata$/Project/app/Assembly/System.Runtime/Symbol/System/String.cs''"
    by (simp only: example_mark nb)
  from o nf a b c show ?thesis by (simp only: simp_thms)
qed

text \<open>
  C8 as stated fails: when the metadata request is rejected it yields no source, and
  the handler returns that rejection as an error, not an empty result.
\<close>

theorem metadata_request_failure_counterexample:
  "definition_handler example_runtime example_opened example_params
     (Resolved (Some example_definition)) (Rejected (Some (JStr (js ''timeout''))))
   = Inl (Rejection (Some (JStr (js ''timeout''))))"
  using example_definition_facts
  by (simp add: definition_handler_def createRequest_def Let_def)

section \<open>Frames\<close>

lemma length_utf8_of_nat:
  "length (utf8_of_nat n) = (if n < 128 then 1 else if n < 2048 then 2 else if n < 65536 then 3 else 4)"
  by (simp add: utf8_of_nat_def)

lemma unat_codeunit_bound: "unat (c :: codeunit) < 65536"
  using unsigned_less [of c, where ?'a = nat] by simp

lemma length_utf8_of_codeunit:
  "length (utf8_of_nat (unat (c :: codeunit))) = (if c < 128 then 1 else if c < 2048 then 2 else 3)"
  using unat_codeunit_bound [of c]
  by (simp add: length_utf8_of_nat word_less_nat_alt)

lemma length_utf8_of_code_point: "length (utf8_of_nat (code_point c d)) = 4"
  by (simp add: length_utf8_of_nat code_point_def)

lemma surrogate_not_small:
  "is_high_surrogate c \<or> is_low_surrogate c \<Longrightarrow> \<not> c < 128 \<and> \<not> c < 2048"
  by (auto simp: is_high_surrogate_def is_low_surrogate_def word_less_nat_alt word_le_nat_alt)

lemma byteLength_utf8_encode: "byteLength t = length (utf8_encode t)"
proof (induction t rule: byteLength.induct)
  case 1
  then show ?case by simp
next
  case (2 c)
  then show ?case
    using surrogate_not_small [of c] by (auto simp: length_utf8_of_codeunit)
next
  case (3 c d cs)
  then show ?case
    using surrogate_not_small [of c]
    by (auto simp: length_utf8_of_codeunit length_utf8_of_code_point)
qed

lemma read_decimal_snoc: "read_decimal (t @ [c]) = 10 * read_decimal t + (unat c - 48)"
  by (simp add: read_decimal_def)

lemma unat_digit: "d < 10 \<Longrightarrow> unat (of_nat (48 + d) :: codeunit) = 48 + d"
proof -
  assume "d < 10"
  then have "48 + d < 2 ^ LENGTH(16)" by simp
  then show ?thesis
    by (rule of_nat_inverse [OF refl])
qed

lemma read_decimal_decimal: "read_decimal (decimal n) = n"
proof (induction n rule: decimal.induct)
  case (1 n)
  show ?case
  proof (cases "n < 10")
    case True
    then show ?thesis
      using unat_digit [of n] by (subst decimal.simps) (simp add: read_decimal_def)
  next
    case False
    have "n mod 10 < 10" by simp
    then have "unat (of_nat (48 + n mod 10) :: codeunit) = 48 + n mod 10" by (rule unat_digit)
    with False 1 show ?thesis
      by (subst decimal.simps) (simp add: read_decimal_snoc)
  qed
qed

text \<open>
  C7. For every message of the backend the frame sent to the client is the header
  \<open>Content-Length: <n>\<close>, carriage return and line feed twice, and the serialization of
  the message, where \<open>n\<close> is the number of bytes of the UTF-8 encoding of the
  serialization, written in decimal so that it reads back as \<open>n\<close>.
\<close>

theorem frame_length_in_bytes:
  "jsent (startConversion_listener JSON_stringify s d) =
     jsent s @ [js ''Content-Length: '' @ decimal (length (utf8_encode (JSON_stringify d)))
                @ [13, 10, 13, 10] @ JSON_stringify d]
   \<and> read_decimal (decimal (length (utf8_encode (JSON_stringify d)))) = length (utf8_encode (JSON_stringify d))"
  by (simp add: startConversion_listener_def frame_def contentLength_def CRLF_def Let_def
        byteLength_utf8_encode read_decimal_decimal)

lemma example_length: "length (utf8_encode [20013]) = 3"
  by (simp add: is_high_surrogate_def is_low_surrogate_def utf8_of_nat_def)

lemma example_decimal: "decimal 3 = js ''3''"
  by (subst decimal.simps) (simp add: js_def)

text \<open>The theorem at a payload of one character that takes three bytes.\<close>

theorem frame_length_in_bytes_witness:
  "jsent (startConversion_listener (\<lambda>d. [20013]) example_java_server JNull) =
     [js ''Content-Length: 3'' @ [13, 10, 13, 10, 20013]]
   \<and> length [20013 :: codeunit] = 1"
proof -
  from frame_length_in_bytes [of "\<lambda>d. [20013]" example_java_server JNull, THEN conjunct1]
  have "jsent (startConversion_listener (\<lambda>d. [20013]) example_java_server JNull) =
      jsent example_java_server @ [js ''Content-Length: '' @ js ''3'' @ [13, 10, 13, 10] @ [20013]]"
    by (simp only: example_length example_decimal)
  moreover have "jsent example_java_server = []"
    by (simp add: example_java_server_def)
  ultimately show ?thesis by (simp add: js_def)
qed

end
